theory Spec2Isabelle
  imports Complex_Main "HOL-Library.Word"
begin

unbundle bit_operations_syntax

section \<open>Bytes and Python exceptions\<close>

type_synonym byte = "8 word"

text \<open>
  A Python \<open>bytes\<close> value is a list of bytes.  An ASCII literal such as \<open>b'RIFF'\<close>
  is the list of its character codes.
\<close>

definition ascii :: "string \<Rightarrow> byte list" where
  "ascii s = map (\<lambda>c. of_nat (of_char c)) s"

text \<open>
  An exception object (any subclass of \<open>Exception\<close>): its class name and the
  text that \<open>str(e)\<close> and \<open>f"{e}"\<close> give.
\<close>

datatype py_exception = PyException (exc_class: string) (exc_str: string)

section \<open>Format detection (\<open>detect_audio_format\<close>)\<close>

text \<open>
  The slice \<open>audio_data[:n]\<close> is \<open>take n audio_data\<close>: on a blob shorter than
  \<open>n\<close> it is the whole blob and nothing is raised.  The function returns one of
  the strings \<open>'wav'\<close>, \<open>'webm'\<close>, \<open>'mp3'\<close>, \<open>'ogg'\<close>, \<open>'flac'\<close>, or \<open>None\<close>.
\<close>

definition detect_audio_format :: "byte list \<Rightarrow> string option" where
  "detect_audio_format audio_data =
     (if take 4 audio_data = ascii ''RIFF'' then Some ''wav''
      else if take 4 audio_data = [0x1A, 0x45, 0xDF, 0xA3] then Some ''webm''
      else if take 3 audio_data = ascii ''ID3'' \<or> take 2 audio_data = [0xFF, 0xFB]
        then Some ''mp3''
      else if take 4 audio_data = ascii ''OggS'' then Some ''ogg''
      else if take 4 audio_data = ascii ''fLaC'' then Some ''flac''
      else None)"

section \<open>Floating-point values\<close>

text \<open>
  A floating-point value is a finite number, an infinity or NaN.  Every finite
  float is a rational number, so finite values are carried as \<open>rat\<close>; the sign of
  zero is not represented (nothing below depends on it).  The same type serves for
  the Python floats of the decoded list and for the \<open>float32\<close> elements of the
  numpy array: what distinguishes \<open>float32\<close> is the rounding applied by
  \<open>round32\<close> after each operation.
\<close>

datatype fp = Fin rat | PInf | NInf | NaN

text \<open>
  The finite \<open>float32\<close> values are the numbers \<open>m * 2 ^ e\<close> with \<open>\<bar>m\<bar> < 2 ^ 24\<close>
  and \<open>- 149 \<le> e \<le> 104\<close>.  With \<open>k = e + 149\<close>, \<open>ulp k\<close> is the spacing \<open>2 ^ e\<close>.
\<close>

definition ulp :: "nat \<Rightarrow> rat" where
  "ulp k = 2 ^ k / 2 ^ 149"

definition round_half_even :: "rat \<Rightarrow> int" where
  "round_half_even x =
     (let f = \<lfloor>x\<rfloor>; d = x - of_int f
      in if d < 1 / 2 then f
         else if 1 / 2 < d then f + 1
         else if even f then f else f + 1)"

text \<open>
  IEEE 754 round-to-nearest, ties-to-even, into \<open>float32\<close>: the exponent is the
  least one at which the significand fits in 24 bits, the significand is rounded
  to an integer there, and a result of magnitude \<open>2 ^ 128\<close> or more is an infinity.
\<close>

definition round32 :: "rat \<Rightarrow> fp" where
  "round32 q =
     (case find (\<lambda>k. \<bar>q\<bar> < 2 ^ 24 * ulp k) [0..<254] of
        None \<Rightarrow> if 0 < q then PInf else NInf
      | Some k \<Rightarrow>
          let r = of_int (round_half_even (q / ulp k)) * ulp k
          in if 2 ^ 128 \<le> \<bar>r\<bar> then (if 0 < q then PInf else NInf) else Fin r)"

fun is_fin :: "fp \<Rightarrow> bool" where
  "is_fin (Fin q) = True"
| "is_fin x = False"

fun fp_neg :: "fp \<Rightarrow> bool" where
  "fp_neg (Fin q) = (q < 0)"
| "fp_neg NInf = True"
| "fp_neg x = False"

text \<open>The comparison \<open>x < y\<close> of floats; every comparison with NaN is false.\<close>

fun fp_less :: "fp \<Rightarrow> fp \<Rightarrow> bool" where
  "fp_less NaN y = False"
| "fp_less x NaN = False"
| "fp_less (Fin a) (Fin b) = (a < b)"
| "fp_less x NInf = False"
| "fp_less PInf y = False"
| "fp_less x y = True"

text \<open>\<open>np.array(samples, dtype=np.float32)\<close> converts each element to \<open>float32\<close>.\<close>

fun to_f32 :: "fp \<Rightarrow> fp" where
  "to_f32 (Fin q) = round32 q"
| "to_f32 x = x"

fun np_abs :: "fp \<Rightarrow> fp" where
  "np_abs (Fin q) = Fin \<bar>q\<bar>"
| "np_abs NaN = NaN"
| "np_abs x = PInf"

text \<open>\<open>np.max\<close> propagates NaN, and raises \<open>ValueError\<close> on an empty array.\<close>

definition fp_max2 :: "fp \<Rightarrow> fp \<Rightarrow> fp" where
  "fp_max2 a b = (if a = NaN \<or> b = NaN then NaN else if fp_less a b then b else a)"

fun np_max :: "fp list \<Rightarrow> py_exception + fp" where
  "np_max [] = Inl (PyException ''ValueError''
     ''zero-size array to reduction operation maximum which has no identity'')"
| "np_max (x # xs) = Inr (foldl fp_max2 x xs)"

text \<open>
  Division and multiplication of \<open>float32\<close> values, rounded to \<open>float32\<close>.  A zero
  divisor is taken as \<open>+0.0\<close>; the code divides only by a \<open>max_val\<close> that is greater
  than zero.
\<close>

fun f32_div :: "fp \<Rightarrow> fp \<Rightarrow> fp" where
  "f32_div NaN y = NaN"
| "f32_div x NaN = NaN"
| "f32_div (Fin a) (Fin b) =
     (if b = 0 then (if a = 0 then NaN else if 0 < a then PInf else NInf)
      else round32 (a / b))"
| "f32_div (Fin a) y = Fin 0"
| "f32_div x (Fin b) = (if fp_neg x = (b < 0) then PInf else NInf)"
| "f32_div x y = NaN"

fun f32_mul :: "fp \<Rightarrow> fp \<Rightarrow> fp" where
  "f32_mul NaN y = NaN"
| "f32_mul x NaN = NaN"
| "f32_mul (Fin a) (Fin b) = round32 (a * b)"
| "f32_mul x y =
     (if x = Fin 0 \<or> y = Fin 0 then NaN
      else if fp_neg x = fp_neg y then PInf else NInf)"

text \<open>
  \<open>astype(np.int16)\<close> is the C conversion from \<open>float\<close> to a 16-bit integer: the
  value is truncated toward zero when the truncated value is an \<open>int16\<close>.  For any
  other operand (NaN, an infinity, a finite value out of range) C leaves the result
  undefined and numpy raises nothing; what the platform then stores is the
  parameter \<open>ub\<close>.
\<close>

definition trunc :: "rat \<Rightarrow> int" where
  "trunc q = (if 0 \<le> q then \<lfloor>q\<rfloor> else \<lceil>q\<rceil>)"

fun astype_int16 :: "(fp \<Rightarrow> 16 word) \<Rightarrow> fp \<Rightarrow> 16 word" where
  "astype_int16 ub (Fin q) =
     (if - 32769 < q \<and> q < 32768 then word_of_int (trunc q) else ub (Fin q))"
| "astype_int16 ub x = ub x"

section \<open>Normalization and quantization (\<open>convert_to_wav\<close>, source lines 111 to 122)\<close>

definition samples_array :: "fp list \<Rightarrow> fp list" where
  "samples_array samples = map to_f32 samples"

definition max_val :: "fp list \<Rightarrow> py_exception + fp" where
  "max_val arr = np_max (map np_abs arr)"

definition normalized :: "fp \<Rightarrow> fp list \<Rightarrow> fp list" where
  "normalized mx arr = (if fp_less (Fin 0) mx then map (\<lambda>x. f32_div x mx) arr else arr)"

text \<open>
  The value of \<open>samples_int16\<close> for the decoded list \<open>samples\<close>, or the exception
  raised on the way.
\<close>

definition samples_int16 :: "(fp \<Rightarrow> 16 word) \<Rightarrow> fp list \<Rightarrow> py_exception + 16 word list" where
  "samples_int16 ub samples =
     (if samples = [] then Inl (PyException ''ValueError'' ''No audio samples decoded'')
      else case max_val (samples_array samples) of
             Inl e \<Rightarrow> Inl e
           | Inr mx \<Rightarrow>
               Inr (map (\<lambda>x. astype_int16 ub (f32_mul x (Fin 32767)))
                     (normalized mx (samples_array samples))))"

text \<open>
  The two notions the specification states the normalization with, written from its
  words: the peak absolute amplitude across the full sample sequence, and the quantizer
  \<open>round(s * 32767)\<close> clamped to \<open>[-32768, 32767]\<close>.  They are what the claims compare
  the code with.
\<close>

definition peak_amplitude :: "rat list \<Rightarrow> rat" where
  "peak_amplitude vals = Max (set (map abs vals))"

definition spec_quantize :: "rat \<Rightarrow> 16 word" where
  "spec_quantize s = word_of_int (max (- 32768) (min 32767 (round (s * 32767))))"

section \<open>WAV encoding (\<open>convert_to_wav\<close>, source lines 124 to 146)\<close>

text \<open>
  \<open>struct.pack('<I', v)\<close> and \<open>struct.pack('<H', v)\<close> give the 4 and 2 bytes of
  \<open>v\<close>, least significant first, and raise \<open>struct.error\<close> when \<open>v\<close> does not fit.
\<close>

definition le_bytes :: "nat \<Rightarrow> int \<Rightarrow> byte list" where
  "le_bytes n v = map (\<lambda>i. word_of_int (v div 256 ^ i)) [0..<n]"

definition struct_error :: "string \<Rightarrow> py_exception" where
  "struct_error fmt =
     PyException ''struct.error'' ([CHR 0x27] @ fmt @ [CHR 0x27] @ '' format requires 0 <= number <= ''
        @ (if fmt = ''I'' then ''4294967295'' else ''65535''))"

definition pack_I :: "int \<Rightarrow> py_exception + byte list" where
  "pack_I v = (if 0 \<le> v \<and> v \<le> 4294967295 then Inr (le_bytes 4 v) else Inl (struct_error ''I''))"

definition pack_H :: "int \<Rightarrow> py_exception + byte list" where
  "pack_H v = (if 0 \<le> v \<and> v \<le> 65535 then Inr (le_bytes 2 v) else Inl (struct_error ''H''))"

text \<open>
  \<open>samples_int16.tobytes()\<close>: the two bytes of each sample in the byte order of
  the host, which is little-endian on the platforms numpy is distributed for.
\<close>

definition int16_le :: "16 word \<Rightarrow> byte list" where
  "int16_le w = [ucast w, ucast (drop_bit 8 w)]"

definition tobytes :: "16 word list \<Rightarrow> byte list" where
  "tobytes xs = concat (map int16_le xs)"

text \<open>
  The writes to \<open>wav_buffer\<close> happen in order, and the argument of each is
  computed just before it: the first one that raises ends the function.
\<close>

fun write_all :: "(py_exception + byte list) list \<Rightarrow> py_exception + byte list" where
  "write_all [] = Inr []"
| "write_all (Inl e # ws) = Inl e"
| "write_all (Inr b # ws) = (case write_all ws of Inl e \<Rightarrow> Inl e | Inr bs \<Rightarrow> Inr (b @ bs))"

definition wav_buffer :: "16 word list \<Rightarrow> py_exception + byte list" where
  "wav_buffer s16 =
     (let num_samples = int (length s16);
          data_size = num_samples * 2
      in write_all
           [Inr (ascii ''RIFF''),
            pack_I (36 + data_size),
            Inr (ascii ''WAVE''),
            Inr (ascii ''fmt ''),
            pack_I 16,
            pack_H 1,
            pack_H 1,
            pack_I 16000,
            pack_I (16000 * 2),
            pack_H 2,
            pack_H 16,
            Inr (ascii ''data''),
            pack_I data_size,
            Inr (tobytes s16)])"

section \<open>Decoding through PyAV (\<open>convert_to_wav\<close>, source lines 82 to 109)\<close>

text \<open>
  PyAV is an external library.  What \<open>av.open\<close> gives for a blob and a format hint
  is a parameter of the model: either the exception it raises (this covers a failing
  \<open>import av\<close>), or a container.  Of a container the code uses the types of its
  streams, in order, and the frames decoded from the first audio stream; \<open>frames\<close>
  holds for each frame the list \<open>frame_array.flatten().tolist()\<close> obtained after the
  channel mean, or the exception raised while decoding.
\<close>

record av_container =
  stream_types :: "string list"
  frames :: "py_exception + fp list list"

type_synonym av_open = "byte list \<Rightarrow> string option \<Rightarrow> py_exception + av_container"

definition decoded_samples :: "av_open \<Rightarrow> byte list \<Rightarrow> string option \<Rightarrow> py_exception + fp list" where
  "decoded_samples av audio_data input_format =
     (case av audio_data input_format of
        Inl e \<Rightarrow> Inl e
      | Inr input_container \<Rightarrow>
          if \<not> list_ex (\<lambda>t. t = ''audio'') (stream_types input_container)
          then Inl (PyException ''ValueError'' ''No audio stream found'')
          else (case frames input_container of
                  Inl e \<Rightarrow> Inl e
                | Inr fs \<Rightarrow> Inr (concat fs)))"

text \<open>
  The handler \<open>except Exception as e: ...; raise\<close> logs and raises the same
  exception again, so the function raises what its body raises.
\<close>

definition convert_to_wav ::
  "av_open \<Rightarrow> (fp \<Rightarrow> 16 word) \<Rightarrow> byte list \<Rightarrow> string option \<Rightarrow> py_exception + byte list" where
  "convert_to_wav av ub audio_data input_format =
     (case decoded_samples av audio_data input_format of
        Inl e \<Rightarrow> Inl e
      | Inr samples \<Rightarrow>
          (case samples_int16 ub samples of
             Inl e \<Rightarrow> Inl e
           | Inr s16 \<Rightarrow> wav_buffer s16))"

section \<open>Orchestration (\<open>transcribe_audio\<close>)\<close>

text \<open>
  The dictionary returned by \<open>transcribe_audio\<close>, with one field for each of the
  keys \<open>success\<close>, \<open>text\<close>, \<open>error\<close>, \<open>language\<close> and \<open>duration\<close>; a key that is
  absent is \<open>None\<close>.
\<close>

record transcription =
  res_success :: bool
  res_text :: string
  res_error :: "string option"
  res_language :: "string option"
  res_duration :: "fp option"

text \<open>
  \<open>str.strip()\<close> and \<open>" ".join(...)\<close>.  The white space of \<open>str.isspace\<close> is given
  for the code points below 256, which is what a \<open>char\<close> holds.
\<close>

definition isspace :: "char \<Rightarrow> bool" where
  "isspace c = (let n = (of_char c :: nat)
                in (9 \<le> n \<and> n \<le> 13) \<or> (28 \<le> n \<and> n \<le> 32) \<or> n = 133 \<or> n = 160)"

definition strip :: "string \<Rightarrow> string" where
  "strip s = rev (dropWhile isspace (rev (dropWhile isspace s)))"

fun join :: "string \<Rightarrow> string list \<Rightarrow> string" where
  "join sep [] = []"
| "join sep [x] = x"
| "join sep (x # y # zs) = x @ sep @ join sep (y # zs)"

text \<open>
  The file system is a store from paths to contents.  The loaded model is a
  parameter: given the store and a path it yields the texts of the segments,
  \<open>info.language\<close> and \<open>info.duration\<close>, or the exception raised by
  \<open>model.transcribe\<close> or while the segments are iterated.  \<open>temp_path\<close> is the name
  chosen by \<open>NamedTemporaryFile\<close>.  \<open>load_model\<close> and the creation of the temporary
  file are taken to succeed; \<open>content_type\<close> is only logged and is left out.
\<close>

type_synonym filesystem = "string \<rightharpoonup> byte list"

type_synonym whisper = "filesystem \<Rightarrow> string \<Rightarrow> py_exception + (string list \<times> string \<times> fp)"

definition conversion_failed :: "py_exception \<Rightarrow> transcription" where
  "conversion_failed e =
     \<lparr>res_success = False, res_text = [],
      res_error = Some (''Audio conversion failed: '' @ exc_str e),
      res_language = None, res_duration = None\<rparr>"

definition transcribed :: "py_exception + (string list \<times> string \<times> fp) \<Rightarrow> transcription" where
  "transcribed r =
     (case r of
        Inl e \<Rightarrow>
          \<lparr>res_success = False, res_text = [], res_error = Some (exc_str e),
           res_language = None, res_duration = None\<rparr>
      | Inr (segments, lang, dur) \<Rightarrow>
          \<lparr>res_success = True, res_text = strip (join '' '' (map strip segments)),
           res_error = None, res_language = Some lang, res_duration = Some dur\<rparr>)"

definition transcribe_audio ::
  "av_open \<Rightarrow> (fp \<Rightarrow> 16 word) \<Rightarrow> whisper \<Rightarrow> string \<Rightarrow> filesystem \<Rightarrow> byte list
     \<Rightarrow> transcription \<times> filesystem" where
  "transcribe_audio av ub model temp_path fs audio_data =
     (let detected_format = detect_audio_format audio_data
      in case (if detected_format \<noteq> Some ''wav''
               then convert_to_wav av ub audio_data detected_format
               else Inr audio_data) of
           Inl e \<Rightarrow> (conversion_failed e, fs)
         | Inr wav \<Rightarrow>
             (let fs1 = fs(temp_path \<mapsto> wav)
              in (transcribed (model fs1 temp_path), fs1(temp_path := None))))"

section \<open>Reading a canonical WAV back\<close>

text \<open>
  The value of a little-endian field: \<open>u16_at off b\<close> and \<open>u32_at off b\<close> read the
  2 and 4 bytes of \<open>b\<close> from offset \<open>off\<close>.
\<close>

definition le_nat :: "byte list \<Rightarrow> nat" where
  "le_nat bs = foldr (\<lambda>b n. unat b + 256 * n) bs 0"

definition u16_at :: "nat \<Rightarrow> byte list \<Rightarrow> nat" where
  "u16_at off bs = le_nat (take 2 (drop off bs))"

definition u32_at :: "nat \<Rightarrow> byte list \<Rightarrow> nat" where
  "u32_at off bs = le_nat (take 4 (drop off bs))"

text \<open>
  Modelled from the spec: the repository has no WAV parser (WAV input is handed to
  the transcription engine as it is).  The parser below reads the layout of
  section 4.4 of the specification: it checks the chunk tags and the PCM format
  fields, reads the channel count at offset 22, the sample rate at offset 24 and
  the data size at offset 40, and decodes that many bytes from offset 44 as
  little-endian 16-bit samples.
\<close>

fun from_le16 :: "byte list \<Rightarrow> 16 word list" where
  "from_le16 (lo # hi # rest) = (ucast lo OR push_bit 8 (ucast hi)) # from_le16 rest"
| "from_le16 bs = []"

record pcm =
  pcm_samples :: "16 word list"
  pcm_sample_rate :: nat
  pcm_channel_count :: nat

definition parse_wav :: "byte list \<Rightarrow> pcm option" where
  "parse_wav b =
     (if length b < 44 \<or> take 4 b \<noteq> ascii ''RIFF'' \<or> take 4 (drop 8 b) \<noteq> ascii ''WAVE''
         \<or> take 4 (drop 12 b) \<noteq> ascii ''fmt '' \<or> u32_at 16 b \<noteq> 16 \<or> u16_at 20 b \<noteq> 1
         \<or> u16_at 34 b \<noteq> 16 \<or> take 4 (drop 36 b) \<noteq> ascii ''data''
         \<or> length b < 44 + u32_at 40 b
      then None
      else Some \<lparr>pcm_samples = from_le16 (take (u32_at 40 b) (drop 44 b)),
                 pcm_sample_rate = u32_at 24 b,
                 pcm_channel_count = u16_at 22 b\<rparr>)"

text \<open>
  The round trip: encode the samples, then parse the bytes; \<open>None\<close> when the encoder
  raises or the parser rejects the bytes.
\<close>

definition encode_then_parse :: "16 word list \<Rightarrow> pcm option" where
  "encode_then_parse s16 =
     (case wav_buffer s16 of Inl e \<Rightarrow> None | Inr b \<Rightarrow> parse_wav b)"

section \<open>Properties of format detection\<close>

lemma take2_eq: "take 2 b = [p, q] \<longleftrightarrow> (\<exists>rest. b = p # q # rest)"
  apply (cases b; simp)
  subgoal for a1 b1
    by (cases b1; auto simp add: numeral_2_eq_2)
  done

lemma take3_eq: "take 3 b = [p, q, r] \<longleftrightarrow> (\<exists>rest. b = p # q # r # rest)"
  apply (cases b; simp)
  subgoal for a1 b1
    apply (cases b1; simp add: numeral_3_eq_3)
    subgoal for a2 b2
      by (cases b2; auto)
    done
  done

lemma take4_eq: "take 4 b = [p, q, r, s] \<longleftrightarrow> (\<exists>rest. b = p # q # r # s # rest)"
proof (cases b)
  case Nil
  then show ?thesis by simp
next
  case (Cons a1 b1)
  have "take 4 (a1 # b1) = a1 # take 3 b1" by (simp add: take_Cons')
  then show ?thesis using Cons take3_eq [of b1 q r s] by auto
qed

lemma replicate_zero_Cons: "replicate m (0::byte) = x # xs \<Longrightarrow> x = 0"
  by (cases m) auto

lemma magic_bytes:
  "ascii ''RIFF'' = [0x52, 0x49, 0x46, 0x46]"
  "ascii ''ID3'' = [0x49, 0x44, 0x33]"
  "ascii ''OggS'' = [0x4F, 0x67, 0x67, 0x53]"
  "ascii ''fLaC'' = [0x66, 0x4C, 0x61, 0x43]"
  by (simp_all add: ascii_def)

lemma detect_wav_iff:
  "detect_audio_format b = Some ''wav'' \<longleftrightarrow> take 4 b = [0x52, 0x49, 0x46, 0x46]"
  unfolding detect_audio_format_def magic_bytes by simp

lemma detect_webm_iff:
  "detect_audio_format b = Some ''webm'' \<longleftrightarrow> take 4 b = [0x1A, 0x45, 0xDF, 0xA3]"
  unfolding detect_audio_format_def magic_bytes by auto

lemma detect_mp3_iff:
  "detect_audio_format b = Some ''mp3'' \<longleftrightarrow>
     take 3 b = [0x49, 0x44, 0x33] \<or> take 2 b = [0xFF, 0xFB]"
  unfolding detect_audio_format_def magic_bytes
  by (auto simp add: take4_eq take3_eq take2_eq)

lemma detect_ogg_iff:
  "detect_audio_format b = Some ''ogg'' \<longleftrightarrow> take 4 b = [0x4F, 0x67, 0x67, 0x53]"
  unfolding detect_audio_format_def magic_bytes
  by (auto simp add: take4_eq take3_eq take2_eq)

lemma detect_flac_iff:
  "detect_audio_format b = Some ''flac'' \<longleftrightarrow> take 4 b = [0x66, 0x4C, 0x61, 0x43]"
  unfolding detect_audio_format_def magic_bytes
  by (auto simp add: take4_eq take3_eq take2_eq)

lemma detect_unknown_iff:
  "detect_audio_format b = None \<longleftrightarrow>
     take 4 b \<noteq> [0x52, 0x49, 0x46, 0x46] \<and> take 4 b \<noteq> [0x1A, 0x45, 0xDF, 0xA3] \<and>
     take 3 b \<noteq> [0x49, 0x44, 0x33] \<and> take 2 b \<noteq> [0xFF, 0xFB] \<and>
     take 4 b \<noteq> [0x4F, 0x67, 0x67, 0x53] \<and> take 4 b \<noteq> [0x66, 0x4C, 0x61, 0x43]"
  unfolding detect_audio_format_def magic_bytes by simp

lemma detect_ogg_prefix:
  "detect_audio_format ([0x4F, 0x67, 0x67, 0x53] @ rest) = Some ''ogg''"
  unfolding detect_audio_format_def magic_bytes by simp

lemma detect_zeros: "detect_audio_format (replicate n 0) = None"
  unfolding detect_audio_format_def magic_bytes
  by (auto dest: replicate_zero_Cons)

text \<open>
  Claim C3.  For every blob, \<open>detect_audio_format\<close> returns \<open>'wav'\<close> exactly when the
  first four bytes are \<open>52 49 46 46\<close>, \<open>'webm'\<close> exactly when they are \<open>1A 45 DF A3\<close>,
  \<open>'mp3'\<close> exactly when the first three bytes are \<open>49 44 33\<close> or the first two are
  \<open>FF FB\<close>, \<open>'ogg'\<close> exactly when the first four are \<open>4F 67 67 53\<close> (whatever follows),
  \<open>'flac'\<close> exactly when they are \<open>66 4C 61 43\<close>, and \<open>None\<close> exactly when no signature
  matches; a blob of zero bytes of any length gives \<open>None\<close>.  The function is total:
  it returns for every blob.  The signatures exclude one another, so the order of the
  tests cannot be observed in the result.
\<close>

theorem detect_audio_format_signatures:
  "(detect_audio_format b = Some ''wav'' \<longleftrightarrow> take 4 b = [0x52, 0x49, 0x46, 0x46]) \<and>
   (detect_audio_format b = Some ''webm'' \<longleftrightarrow> take 4 b = [0x1A, 0x45, 0xDF, 0xA3]) \<and>
   (detect_audio_format b = Some ''mp3'' \<longleftrightarrow>
      take 3 b = [0x49, 0x44, 0x33] \<or> take 2 b = [0xFF, 0xFB]) \<and>
   (detect_audio_format b = Some ''ogg'' \<longleftrightarrow> take 4 b = [0x4F, 0x67, 0x67, 0x53]) \<and>
   (detect_audio_format b = Some ''flac'' \<longleftrightarrow> take 4 b = [0x66, 0x4C, 0x61, 0x43]) \<and>
   (detect_audio_format b = None \<longleftrightarrow>
      take 4 b \<noteq> [0x52, 0x49, 0x46, 0x46] \<and> take 4 b \<noteq> [0x1A, 0x45, 0xDF, 0xA3] \<and>
      take 3 b \<noteq> [0x49, 0x44, 0x33] \<and> take 2 b \<noteq> [0xFF, 0xFB] \<and>
      take 4 b \<noteq> [0x4F, 0x67, 0x67, 0x53] \<and> take 4 b \<noteq> [0x66, 0x4C, 0x61, 0x43]) \<and>
   detect_audio_format ([0x4F, 0x67, 0x67, 0x53] @ rest) = Some ''ogg'' \<and>
   detect_audio_format (replicate n 0) = None"
  using detect_wav_iff [of b] detect_webm_iff [of b] detect_mp3_iff [of b]
    detect_ogg_iff [of b] detect_flac_iff [of b] detect_unknown_iff [of b]
    detect_ogg_prefix [of rest] detect_zeros [of n]
  by blast

text \<open>
  Claim C9 as stated (every blob shorter than four bytes gives \<open>None\<close>) fails: the
  three-byte blob \<open>49 44 33\<close> is shorter than four bytes and is detected as \<open>'mp3'\<close>,
  because the MP3 signatures are compared with the first three and the first two bytes.
\<close>

theorem short_blob_counterexample:
  "length [0x49, 0x44, 0x33 :: byte] < 4 \<and>
   detect_audio_format [0x49, 0x44, 0x33] = Some ''mp3''"
  by (simp add: detect_audio_format_def ascii_def)

text \<open>
  Claim C9, amended.  A blob shorter than four bytes gives \<open>'mp3'\<close> when it is exactly
  \<open>49 44 33\<close> or begins with \<open>FF FB\<close>, and \<open>None\<close> otherwise.
\<close>

theorem detect_audio_format_short:
  "length b < 4 \<Longrightarrow>
   detect_audio_format b =
     (if b = [0x49, 0x44, 0x33] \<or> take 2 b = [0xFF, 0xFB] then Some ''mp3'' else None)"
  unfolding detect_audio_format_def magic_bytes
  by (auto simp add: take4_eq take3_eq take2_eq)

theorem detect_audio_format_short_witness:
  "length [0xFF, 0xFB, 0x90 :: byte] < 4 \<and>
   detect_audio_format [0xFF, 0xFB, 0x90] = Some ''mp3'' \<and>
   length [0x52, 0x49, 0x46 :: byte] < 4 \<and>
   detect_audio_format [0x52, 0x49, 0x46] = None"
  using detect_audio_format_short [of "[0xFF, 0xFB, 0x90]"]
    detect_audio_format_short [of "[0x52, 0x49, 0x46]"]
  by simp

section \<open>Properties of the WAV encoder\<close>

lemma le_bytes_Suc: "le_bytes (Suc n) v = word_of_int v # le_bytes n (v div 256)"
proof -
  have "[0..<Suc n] = 0 # map Suc [0..<n]"
    by (simp add: upt_conv_Cons map_Suc_upt del: upt_Suc)
  then show ?thesis
    by (simp add: le_bytes_def comp_def div_mult2_eq zdiv_zmult2_eq)
qed

lemma le_bytes_0: "le_bytes 0 v = []"
  by (simp add: le_bytes_def)

lemma unat_byte_of_int: "unat (word_of_int v :: byte) = nat (v mod 256)"
  by (simp add: unat_eq_nat_uint uint_word_of_int)

lemma le_nat_Cons: "le_nat (b # bs) = unat b + 256 * le_nat bs"
  by (simp add: le_nat_def)

lemma le_nat_Nil: "le_nat [] = 0"
  by (simp add: le_nat_def)


lemma le_nat_le_bytes: "0 \<le> v \<Longrightarrow> le_nat (le_bytes n v) = nat (v mod 256 ^ n)"
proof (induction n arbitrary: v)
  case 0
  then show ?case by (simp add: le_bytes_0 le_nat_Nil)
next
  case (Suc n)
  have d: "0 \<le> v div 256" using Suc.prems by simp
  have "v mod (256 * 256 ^ n) = 256 * (v div 256 mod 256 ^ n) + v mod 256"
    by (rule zmod_zmult2_eq) simp
  then show ?case
    using Suc.IH [OF d] Suc.prems
    by (simp add: le_bytes_Suc le_nat_Cons unat_byte_of_int nat_add_distrib nat_mult_distrib)
qed


lemma le_bytes_4: "le_bytes 4 v = [word_of_int v, word_of_int (v div 256),
    word_of_int (v div 256 div 256), word_of_int (v div 256 div 256 div 256)]"
proof -
  have "le_bytes 4 v = le_bytes (Suc (Suc (Suc (Suc 0)))) v"
    by (simp add: numeral_eq_Suc)
  then show ?thesis by (simp add: le_bytes_Suc le_bytes_0)
qed

lemma le_bytes_2: "le_bytes 2 v = [word_of_int v, word_of_int (v div 256)]"
proof -
  have "le_bytes 2 v = le_bytes (Suc (Suc 0)) v"
    by (simp add: numeral_eq_Suc)
  then show ?thesis by (simp add: le_bytes_Suc le_bytes_0)
qed

lemma le_nat_le_bytes_4: "0 \<le> v \<Longrightarrow> v \<le> 4294967295 \<Longrightarrow> le_nat (le_bytes 4 v) = nat v"
  by (simp add: le_nat_le_bytes)

lemma length_tobytes: "length (tobytes xs) = 2 * length xs"
  by (induction xs) (simp_all add: tobytes_def int16_le_def)


lemma wav_buffer_ok:
  assumes "36 + 2 * int (length s16) \<le> 4294967295"
  shows "wav_buffer s16 =
     Inr ([0x52, 0x49, 0x46, 0x46] @ le_bytes 4 (36 + 2 * int (length s16))
          @ [0x57, 0x41, 0x56, 0x45, 0x66, 0x6D, 0x74, 0x20,
             16, 0, 0, 0, 1, 0, 1, 0, 0x80, 0x3E, 0, 0, 0x00, 0x7D, 0, 0, 2, 0, 16, 0,
             0x64, 0x61, 0x74, 0x61]
          @ le_bytes 4 (2 * int (length s16)) @ tobytes s16)"
proof -
  have a: "pack_I (36 + int (length s16) * 2) = Inr (le_bytes 4 (36 + 2 * int (length s16)))"
    using assms by (simp add: pack_I_def mult.commute)
  have b: "pack_I (int (length s16) * 2) = Inr (le_bytes 4 (2 * int (length s16)))"
    using assms by (simp add: pack_I_def mult.commute)
  have c: "pack_I 16 = Inr [16, 0, 0, 0]" "pack_I 16000 = Inr [0x80, 0x3E, 0, 0]"
    "pack_I (16000 * 2) = Inr [0x00, 0x7D, 0, 0]"
    by (simp_all add: pack_I_def le_bytes_4)
  have d: "pack_H 1 = Inr [1, 0]" "pack_H 2 = Inr [2, 0]" "pack_H 16 = Inr [16, 0]"
    by (simp_all add: pack_H_def le_bytes_2)
  have e: "ascii ''RIFF'' = [0x52, 0x49, 0x46, 0x46]" "ascii ''WAVE'' = [0x57, 0x41, 0x56, 0x45]"
    "ascii ''fmt '' = [0x66, 0x6D, 0x74, 0x20]" "ascii ''data'' = [0x64, 0x61, 0x74, 0x61]"
    by (simp_all add: ascii_def)
  show ?thesis
    unfolding wav_buffer_def Let_def a b c d e
    by simp
qed

lemma wav_buffer_too_long:
  assumes "4294967295 < 36 + 2 * int (length s16)"
  shows "wav_buffer s16 = Inl (struct_error ''I'')"
  using assms by (simp add: wav_buffer_def pack_I_def)


lemma tobytes_nth:
  "i < length xs \<Longrightarrow>
   tobytes xs ! (2 * i) = ucast (xs ! i) \<and> tobytes xs ! (2 * i + 1) = ucast (drop_bit 8 (xs ! i))"
proof (induction xs arbitrary: i)
  case Nil
  then show ?case by simp
next
  case (Cons x xs)
  show ?case
  proof (cases i)
    case 0
    then show ?thesis by (simp add: tobytes_def int16_le_def)
  next
    case (Suc j)
    then have "j < length xs" using Cons.prems by simp
    from Cons.IH [OF this] show ?thesis
      using Suc by (simp add: tobytes_def int16_le_def)
  qed
qed

lemma header_fields:
  fixes n :: int and d :: "byte list"
  assumes n: "0 \<le> n" "36 + n \<le> 4294967295"
    and b: "b = [0x52, 0x49, 0x46, 0x46] @ le_bytes 4 (36 + n)
          @ [0x57, 0x41, 0x56, 0x45, 0x66, 0x6D, 0x74, 0x20,
             16, 0, 0, 0, 1, 0, 1, 0, 0x80, 0x3E, 0, 0, 0x00, 0x7D, 0, 0, 2, 0, 16, 0,
             0x64, 0x61, 0x74, 0x61]
          @ le_bytes 4 n @ d"
  shows "take 4 b = [0x52, 0x49, 0x46, 0x46]"
    and "u32_at 4 b = nat (36 + n)"
    and "take 8 (drop 8 b) = [0x57, 0x41, 0x56, 0x45, 0x66, 0x6D, 0x74, 0x20]"
    and "u32_at 16 b = 16"
    and "u16_at 20 b = 1"
    and "u16_at 22 b = 1"
    and "u32_at 24 b = 16000"
    and "u32_at 28 b = 32000"
    and "u16_at 32 b = 2"
    and "u16_at 34 b = 16"
    and "take 4 (drop 36 b) = [0x64, 0x61, 0x74, 0x61]"
    and "u32_at 40 b = nat n"
    and "drop 44 b = d"
    and "length b = 44 + length d"
proof -
  obtain x0 x1 x2 x3 where x: "le_bytes 4 (36 + n) = [x0, x1, x2, x3]"
    by (simp add: le_bytes_4)
  obtain y0 y1 y2 y3 where y: "le_bytes 4 n = [y0, y1, y2, y3]"
    by (simp add: le_bytes_4)
  have bx: "b = [0x52, 0x49, 0x46, 0x46, x0, x1, x2, x3,
             0x57, 0x41, 0x56, 0x45, 0x66, 0x6D, 0x74, 0x20,
             16, 0, 0, 0, 1, 0, 1, 0, 0x80, 0x3E, 0, 0, 0x00, 0x7D, 0, 0, 2, 0, 16, 0,
             0x64, 0x61, 0x74, 0x61, y0, y1, y2, y3] @ d"
    using b x y by simp
  show "take 4 b = [0x52, 0x49, 0x46, 0x46]" by (simp add: bx)
  have "u32_at 4 b = le_nat [x0, x1, x2, x3]" by (simp add: bx u32_at_def)
  then show "u32_at 4 b = nat (36 + n)"
    using le_nat_le_bytes_4 [of "36 + n"] n x by simp
  show "take 8 (drop 8 b) = [0x57, 0x41, 0x56, 0x45, 0x66, 0x6D, 0x74, 0x20]" by (simp add: bx)
  show "u32_at 16 b = 16" by (simp add: bx u32_at_def le_nat_def)
  show "u16_at 20 b = 1" by (simp add: bx u16_at_def le_nat_def)
  show "u16_at 22 b = 1" by (simp add: bx u16_at_def le_nat_def)
  show "u32_at 24 b = 16000" by (simp add: bx u32_at_def le_nat_def)
  show "u32_at 28 b = 32000" by (simp add: bx u32_at_def le_nat_def)
  show "u16_at 32 b = 2" by (simp add: bx u16_at_def le_nat_def)
  show "u16_at 34 b = 16" by (simp add: bx u16_at_def le_nat_def)
  show "take 4 (drop 36 b) = [0x64, 0x61, 0x74, 0x61]" by (simp add: bx)
  have "u32_at 40 b = le_nat [y0, y1, y2, y3]" by (simp add: bx u32_at_def)
  then show "u32_at 40 b = nat n"
    using le_nat_le_bytes_4 [of n] n y by simp
  show "drop 44 b = d" by (simp add: bx)
  show "length b = 44 + length d" by (simp add: bx)
qed


lemma int16_le_inverse:
  "ucast (ucast w :: byte) OR push_bit 8 (ucast (ucast (drop_bit 8 w) :: byte)) = (w :: 16 word)"
  by (rule bit_word_eqI) (auto simp add: bit_simps)

lemma from_le16_tobytes: "from_le16 (tobytes xs) = xs"
  by (induction xs) (simp_all add: tobytes_def int16_le_def int16_le_inverse)

text \<open>
  Claim C1, amended.  For \<open>N\<close> samples with \<open>36 + 2 * N \<le> 4294967295\<close> (that is,
  \<open>N \<le> 2147483629\<close>) the encoder returns exactly \<open>44 + 2 * N\<close> bytes: bytes 0 to 3 are
  \<open>RIFF\<close>, the 32-bit field at offset 4 is \<open>36 + 2 * N\<close>, bytes 8 to 15 are \<open>WAVE\<close> and
  \<open>fmt \<close>, the field at 16 is 16, the 16-bit fields at 20, 22, 32 and 34 are 1 (PCM),
  1 (mono), 2 (block align) and 16 (bits per sample), the 32-bit fields at 24 and 28
  are 16000 and 32000, bytes 36 to 39 are \<open>data\<close>, the field at 40 is \<open>2 * N\<close>, and from
  offset 44 each sample follows, low byte first.  For a longer input the first
  \<open>struct.pack('<I', ...)\<close> raises \<open>struct.error\<close> and no bytes are produced.
\<close>

theorem wav_buffer_layout:
  "(36 + 2 * int (length s16) \<le> 4294967295 \<longrightarrow>
      (\<exists>b. wav_buffer s16 = Inr b \<and>
           length b = 44 + 2 * length s16 \<and>
           take 4 b = [0x52, 0x49, 0x46, 0x46] \<and>
           u32_at 4 b = 36 + 2 * length s16 \<and>
           take 8 (drop 8 b) = [0x57, 0x41, 0x56, 0x45, 0x66, 0x6D, 0x74, 0x20] \<and>
           u32_at 16 b = 16 \<and>
           u16_at 20 b = 1 \<and>
           u16_at 22 b = 1 \<and>
           u32_at 24 b = 16000 \<and>
           u32_at 28 b = 32000 \<and>
           u16_at 32 b = 2 \<and>
           u16_at 34 b = 16 \<and>
           take 4 (drop 36 b) = [0x64, 0x61, 0x74, 0x61] \<and>
           u32_at 40 b = 2 * length s16 \<and>
           drop 44 b = tobytes s16 \<and>
           (\<forall>i<length s16. b ! (44 + 2 * i) = ucast (s16 ! i) \<and>
                              b ! (44 + 2 * i + 1) = ucast (drop_bit 8 (s16 ! i))))) \<and>
   (4294967295 < 36 + 2 * int (length s16) \<longrightarrow> wav_buffer s16 = Inl (struct_error ''I''))"
proof (intro conjI impI)
  assume h: "36 + 2 * int (length s16) \<le> 4294967295"
  define b where "b = [0x52, 0x49, 0x46, 0x46] @ le_bytes 4 (36 + 2 * int (length s16))
          @ [0x57, 0x41, 0x56, 0x45, 0x66, 0x6D, 0x74, 0x20,
             16, 0, 0, 0, 1, 0, 1, 0, 0x80, 0x3E, 0, 0, 0x00, 0x7D, 0, 0, 2, 0, 16, 0,
             0x64, 0x61, 0x74, 0x61]
          @ le_bytes 4 (2 * int (length s16)) @ tobytes s16"
  have w: "wav_buffer s16 = Inr b"
    unfolding b_def by (rule wav_buffer_ok [OF h])
  have n: "0 \<le> 2 * int (length s16)" "36 + 2 * int (length s16) \<le> 4294967295"
    using h by simp_all
  note f = header_fields [OF n b_def]
  have d: "drop 44 b = tobytes s16" by (rule f(13))
  have nth: "b ! (44 + k) = tobytes s16 ! k" if "k < 2 * length s16" for k
  proof -
    have "44 + k < length b" using that f(14) by (simp add: length_tobytes)
    then have "b ! (44 + k) = drop 44 b ! k" by simp
    then show ?thesis by (simp add: d)
  qed
  have samples: "b ! (44 + 2 * i) = ucast (s16 ! i) \<and>
      b ! (44 + 2 * i + 1) = ucast (drop_bit 8 (s16 ! i))" if "i < length s16" for i
  proof -
    have "b ! (44 + 2 * i) = tobytes s16 ! (2 * i)" using that by (intro nth) simp
    moreover have "b ! (44 + (2 * i + 1)) = tobytes s16 ! (2 * i + 1)"
      using that by (intro nth) simp
    ultimately show ?thesis using tobytes_nth [OF that] by (simp add: add.assoc)
  qed
  have l: "length b = 44 + 2 * length s16"
    using f(14) by (simp add: length_tobytes)
  have r: "u32_at 4 b = 36 + 2 * length s16"
    using f(2) by (simp add: nat_add_distrib nat_mult_distrib)
  have z: "u32_at 40 b = 2 * length s16"
    using f(12) by (simp add: nat_mult_distrib)
  show "\<exists>b. wav_buffer s16 = Inr b \<and>
           length b = 44 + 2 * length s16 \<and>
           take 4 b = [0x52, 0x49, 0x46, 0x46] \<and>
           u32_at 4 b = 36 + 2 * length s16 \<and>
           take 8 (drop 8 b) = [0x57, 0x41, 0x56, 0x45, 0x66, 0x6D, 0x74, 0x20] \<and>
           u32_at 16 b = 16 \<and>
           u16_at 20 b = 1 \<and>
           u16_at 22 b = 1 \<and>
           u32_at 24 b = 16000 \<and>
           u32_at 28 b = 32000 \<and>
           u16_at 32 b = 2 \<and>
           u16_at 34 b = 16 \<and>
           take 4 (drop 36 b) = [0x64, 0x61, 0x74, 0x61] \<and>
           u32_at 40 b = 2 * length s16 \<and>
           drop 44 b = tobytes s16 \<and>
           (\<forall>i<length s16. b ! (44 + 2 * i) = ucast (s16 ! i) \<and>
                              b ! (44 + 2 * i + 1) = ucast (drop_bit 8 (s16 ! i)))"
    using w l f(1) r f(3) f(4) f(5) f(6) f(7) f(8) f(9) f(10) f(11) z d samples
    by blast
next
  assume "4294967295 < 36 + 2 * int (length s16)"
  then show "wav_buffer s16 = Inl (struct_error ''I'')"
    by (rule wav_buffer_too_long)
qed

text \<open>
  Claim C1 as stated (every input of \<open>N\<close> samples gives \<open>44 + 2 * N\<close> bytes) fails for
  2147483630 samples: \<open>36 + data_size\<close> is then \<open>2 ^ 32\<close>, which \<open>struct.pack('<I', ...)\<close>
  refuses, so the encoder raises instead of returning bytes.
\<close>

theorem wav_buffer_layout_counterexample:
  "wav_buffer (replicate 2147483630 0) = Inl (struct_error ''I'')"
  by (simp add: wav_buffer_def pack_I_def)

theorem wav_buffer_layout_witness:
  "36 + 2 * int (length [1, - 2, 0x1234 :: 16 word]) \<le> 4294967295 \<and>
   (\<exists>b. wav_buffer [1, - 2, 0x1234] = Inr b \<and> length b = 50 \<and> u32_at 4 b = 42 \<and>
        u32_at 40 b = 6 \<and> drop 44 b = [0x01, 0x00, 0xFE, 0xFF, 0x34, 0x12]) \<and>
   4294967295 < 36 + 2 * int (length (replicate 2147483630 (0 :: 16 word))) \<and>
   wav_buffer (replicate 2147483630 0) = Inl (struct_error ''I'')"
proof -
  have t: "tobytes [1, - 2, 0x1234] = [0x01, 0x00, 0xFE, 0xFF, 0x34, 0x12]"
    by (simp add: tobytes_def int16_le_def)
  show ?thesis
    using wav_buffer_layout [of "[1, - 2, 0x1234]"]
      wav_buffer_layout [of "replicate 2147483630 0"]
    by (auto simp add: t)
qed


text \<open>
  Claim C4, amended.  For \<open>N\<close> samples with \<open>36 + 2 * N \<le> 4294967295\<close>, encoding and
  then parsing the bytes gives back the same samples, with sample rate 16000 and
  channel count 1 read from the header.
\<close>

theorem encode_then_parse_round_trip:
  assumes h: "36 + 2 * int (length s16) \<le> 4294967295"
  shows "encode_then_parse s16 =
     Some \<lparr>pcm_samples = s16, pcm_sample_rate = 16000, pcm_channel_count = 1\<rparr>"
proof -
  define b where "b = [0x52, 0x49, 0x46, 0x46] @ le_bytes 4 (36 + 2 * int (length s16))
          @ [0x57, 0x41, 0x56, 0x45, 0x66, 0x6D, 0x74, 0x20,
             16, 0, 0, 0, 1, 0, 1, 0, 0x80, 0x3E, 0, 0, 0x00, 0x7D, 0, 0, 2, 0, 16, 0,
             0x64, 0x61, 0x74, 0x61]
          @ le_bytes 4 (2 * int (length s16)) @ tobytes s16"
  have w: "wav_buffer s16 = Inr b"
    unfolding b_def by (rule wav_buffer_ok [OF h])
  have n: "0 \<le> 2 * int (length s16)" "36 + 2 * int (length s16) \<le> 4294967295"
    using h by simp_all
  note f = header_fields [OF n b_def]
  have tags: "ascii ''RIFF'' = [0x52, 0x49, 0x46, 0x46]" "ascii ''WAVE'' = [0x57, 0x41, 0x56, 0x45]"
    "ascii ''fmt '' = [0x66, 0x6D, 0x74, 0x20]" "ascii ''data'' = [0x64, 0x61, 0x74, 0x61]"
    by (simp_all add: ascii_def)
  have wave: "take 4 (drop 8 b) = [0x57, 0x41, 0x56, 0x45]"
  proof -
    have "take 4 (drop 8 b) = take 4 (take 8 (drop 8 b))" by simp
    then show ?thesis unfolding f(3) by simp
  qed
  have fmt: "take 4 (drop 12 b) = [0x66, 0x6D, 0x74, 0x20]"
  proof -
    have "take 4 (drop 12 b) = take 4 (drop 4 (take 8 (drop 8 b)))"
      by (simp add: drop_take)
    then show ?thesis unfolding f(3) by simp
  qed
  have z: "u32_at 40 b = 2 * length s16"
    using f(12) by (simp add: nat_mult_distrib)
  have l: "length b = 44 + 2 * length s16"
    using f(14) by (simp add: length_tobytes)
  have d: "from_le16 (take (u32_at 40 b) (drop 44 b)) = s16"
    unfolding z f(13) by (simp add: length_tobytes from_le16_tobytes)
  have "parse_wav b =
     Some \<lparr>pcm_samples = s16, pcm_sample_rate = 16000, pcm_channel_count = 1\<rparr>"
    unfolding parse_wav_def tags d
    using f(1) wave fmt f(4) f(5) f(6) f(7) f(10) f(11) z l by simp
  then show ?thesis by (simp add: encode_then_parse_def w)
qed

text \<open>
  Claim C4 as stated (the round trip succeeds for every sample sequence) fails for
  2147483630 samples: the encoder raises, so there are no bytes to parse back.
\<close>

theorem encode_then_parse_counterexample:
  "encode_then_parse (replicate 2147483630 0) = None"
  by (simp add: encode_then_parse_def wav_buffer_def pack_I_def)

theorem encode_then_parse_round_trip_witness:
  "36 + 2 * int (length [0x7FFF, - 0x8000, 0, 0x1234 :: 16 word]) \<le> 4294967295 \<and>
   encode_then_parse [0x7FFF, - 0x8000, 0, 0x1234] =
     Some \<lparr>pcm_samples = [0x7FFF, - 0x8000, 0, 0x1234], pcm_sample_rate = 16000,
            pcm_channel_count = 1\<rparr>"
  using encode_then_parse_round_trip [of "[0x7FFF, - 0x8000, 0, 0x1234]"]
  by simp

section \<open>Properties of the orchestration\<close>

lemma max_val_nonempty: "arr \<noteq> [] \<Longrightarrow> \<exists>mx. max_val arr = Inr mx"
  by (cases arr) (simp_all add: max_val_def)

lemma samples_int16_nonempty:
  assumes "samples \<noteq> []"
  shows "\<exists>s16. samples_int16 ub samples = Inr s16 \<and> length s16 = length samples"
proof -
  have "samples_array samples \<noteq> []" using assms by (simp add: samples_array_def)
  then obtain mx where "max_val (samples_array samples) = Inr mx"
    using max_val_nonempty by blast
  then show ?thesis
    using assms by (simp add: samples_int16_def normalized_def samples_array_def)
qed

lemma samples_int16_empty:
  "samples_int16 ub [] = Inl (PyException ''ValueError'' ''No audio samples decoded'')"
  by (simp add: samples_int16_def)

lemma convert_to_wav_empty:
  "decoded_samples av audio_data fmt = Inr [] \<Longrightarrow>
   convert_to_wav av ub audio_data fmt = Inl (PyException ''ValueError'' ''No audio samples decoded'')"
  by (simp add: convert_to_wav_def samples_int16_empty)

lemma transcribe_audio_conversion_failed:
  "detect_audio_format audio_data \<noteq> Some ''wav'' \<Longrightarrow>
   convert_to_wav av ub audio_data (detect_audio_format audio_data) = Inl e \<Longrightarrow>
   transcribe_audio av ub model temp_path fs audio_data = (conversion_failed e, fs)"
  by (simp add: transcribe_audio_def)

text \<open>
  Claim C5.  Normalization raises exactly when the decoded list is empty, and then it
  raises \<open>ValueError('No audio samples decoded')\<close>, the empty-audio error.  When decoding
  yields an empty list, \<open>convert_to_wav\<close> raises that error instead of returning bytes
  (the header is never built), and \<open>transcribe_audio\<close> returns the failure dictionary
  with the message and leaves the file system as it was: no WAV, of any length, is
  written.
\<close>

theorem empty_samples_raise:
  "(samples_int16 ub samples = Inl e \<longleftrightarrow>
      samples = [] \<and> e = PyException ''ValueError'' ''No audio samples decoded'') \<and>
   (decoded_samples av audio_data fmt = Inr [] \<longrightarrow>
      convert_to_wav av ub audio_data fmt =
        Inl (PyException ''ValueError'' ''No audio samples decoded'')) \<and>
   (detect_audio_format audio_data \<noteq> Some ''wav'' \<and>
    decoded_samples av audio_data (detect_audio_format audio_data) = Inr [] \<longrightarrow>
      transcribe_audio av ub model temp_path fs audio_data =
        (\<lparr>res_success = False, res_text = [],
          res_error = Some ''Audio conversion failed: No audio samples decoded'',
          res_language = None, res_duration = None\<rparr>, fs))"
proof (intro conjI impI)
  show "samples_int16 ub samples = Inl e \<longleftrightarrow>
      samples = [] \<and> e = PyException ''ValueError'' ''No audio samples decoded''"
  proof (cases "samples = []")
    case True
    then show ?thesis by (auto simp add: samples_int16_empty)
  next
    case False
    then show ?thesis using samples_int16_nonempty [OF False, of ub] by auto
  qed
next
  assume "decoded_samples av audio_data fmt = Inr []"
  then show "convert_to_wav av ub audio_data fmt =
        Inl (PyException ''ValueError'' ''No audio samples decoded'')"
    by (rule convert_to_wav_empty)
next
  assume h: "detect_audio_format audio_data \<noteq> Some ''wav'' \<and>
    decoded_samples av audio_data (detect_audio_format audio_data) = Inr []"
  then have "convert_to_wav av ub audio_data (detect_audio_format audio_data) =
        Inl (PyException ''ValueError'' ''No audio samples decoded'')"
    by (intro convert_to_wav_empty) simp
  with h have "transcribe_audio av ub model temp_path fs audio_data =
     (conversion_failed (PyException ''ValueError'' ''No audio samples decoded''), fs)"
    by (intro transcribe_audio_conversion_failed) simp_all
  then show "transcribe_audio av ub model temp_path fs audio_data =
        (\<lparr>res_success = False, res_text = [],
          res_error = Some ''Audio conversion failed: No audio samples decoded'',
          res_language = None, res_duration = None\<rparr>, fs)"
    by (simp add: conversion_failed_def)
qed

theorem empty_samples_raise_witness:
  "detect_audio_format [0x4F, 0x67, 0x67, 0x53, 0] \<noteq> Some ''wav'' \<and>
   decoded_samples (\<lambda>b f. Inr \<lparr>stream_types = [''video'', ''audio''], frames = Inr [[], []]\<rparr>)
      [0x4F, 0x67, 0x67, 0x53, 0] (detect_audio_format [0x4F, 0x67, 0x67, 0x53, 0]) = Inr [] \<and>
   transcribe_audio (\<lambda>b f. Inr \<lparr>stream_types = [''video'', ''audio''], frames = Inr [[], []]\<rparr>)
      (\<lambda>x. 0) (\<lambda>fs p. Inr ([''hello''], ''en'', Fin 1)) ''/tmp/a.wav'' Map.empty
      [0x4F, 0x67, 0x67, 0x53, 0] =
        (\<lparr>res_success = False, res_text = [],
          res_error = Some ''Audio conversion failed: No audio samples decoded'',
          res_language = None, res_duration = None\<rparr>, Map.empty)"
proof -
  have d: "detect_audio_format [0x4F, 0x67, 0x67, 0x53, 0] = Some ''ogg''"
    by (simp add: detect_audio_format_def ascii_def)
  have s: "decoded_samples (\<lambda>b f. Inr \<lparr>stream_types = [''video'', ''audio''], frames = Inr [[], []]\<rparr>)
      [0x4F, 0x67, 0x67, 0x53, 0] (Some ''ogg'') = Inr []"
    by (simp add: decoded_samples_def)
  show ?thesis
    using empty_samples_raise [of "\<lambda>x. 0" "[]" "PyException ''ValueError'' ''No audio samples decoded''"
        "\<lambda>b f. Inr \<lparr>stream_types = [''video'', ''audio''], frames = Inr [[], []]\<rparr>"
        "[0x4F, 0x67, 0x67, 0x53, 0]" "Some ''ogg''"
        "\<lambda>fs p. Inr ([''hello''], ''en'', Fin 1)" "''/tmp/a.wav''" Map.empty]
    by (simp add: d s)
qed

lemma convert_to_wav_Inl_iff:
  "convert_to_wav av ub audio_data fmt = Inl e \<longleftrightarrow>
     decoded_samples av audio_data fmt = Inl e \<or>
     (\<exists>samples. decoded_samples av audio_data fmt = Inr samples \<and>
        (samples_int16 ub samples = Inl e \<or>
         (\<exists>s16. samples_int16 ub samples = Inr s16 \<and> wav_buffer s16 = Inl e)))"
  by (auto simp add: convert_to_wav_def split: sum.splits)

lemma decoded_samples_Inl_iff:
  "decoded_samples av audio_data fmt = Inl e \<longleftrightarrow>
     av audio_data fmt = Inl e \<or>
     (\<exists>c. av audio_data fmt = Inr c \<and>
        (if \<not> list_ex (\<lambda>t. t = ''audio'') (stream_types c)
         then e = PyException ''ValueError'' ''No audio stream found''
         else frames c = Inl e))"
  by (auto simp add: decoded_samples_def split: sum.splits)

text \<open>
  Claim C7.  Detection is a total function and raises nothing.  \<open>convert_to_wav\<close>
  raises \<open>e\<close> exactly when opening the container raises \<open>e\<close>, or no audio stream is
  found, or decoding the frames raises \<open>e\<close>, or normalization raises \<open>e\<close>, or
  encoding raises \<open>e\<close>.  Whenever it raises on a blob not detected as WAV,
  \<open>transcribe_audio\<close> returns the dictionary with \<open>success\<close> false, \<open>text\<close> empty and
  the error message \<open>Audio conversion failed: \<close> followed by \<open>str(e)\<close>, which is not
  empty; the file system is unchanged.
\<close>

theorem conversion_failure_is_structured:
  "(convert_to_wav av ub audio_data fmt = Inl e \<longleftrightarrow>
      av audio_data fmt = Inl e \<or>
      (\<exists>c. av audio_data fmt = Inr c \<and>
         (if \<not> list_ex (\<lambda>t. t = ''audio'') (stream_types c)
          then e = PyException ''ValueError'' ''No audio stream found''
          else frames c = Inl e)) \<or>
      (\<exists>samples. decoded_samples av audio_data fmt = Inr samples \<and>
         (samples_int16 ub samples = Inl e \<or>
          (\<exists>s16. samples_int16 ub samples = Inr s16 \<and> wav_buffer s16 = Inl e)))) \<and>
   (detect_audio_format audio_data \<noteq> Some ''wav'' \<and>
    convert_to_wav av ub audio_data (detect_audio_format audio_data) = Inl e \<longrightarrow>
      transcribe_audio av ub model temp_path fs audio_data =
        (\<lparr>res_success = False, res_text = [],
          res_error = Some (''Audio conversion failed: '' @ exc_str e),
          res_language = None, res_duration = None\<rparr>, fs) \<and>
      ''Audio conversion failed: '' @ exc_str e \<noteq> [])"
proof (intro conjI impI)
  show "convert_to_wav av ub audio_data fmt = Inl e \<longleftrightarrow>
      av audio_data fmt = Inl e \<or>
      (\<exists>c. av audio_data fmt = Inr c \<and>
         (if \<not> list_ex (\<lambda>t. t = ''audio'') (stream_types c)
          then e = PyException ''ValueError'' ''No audio stream found''
          else frames c = Inl e)) \<or>
      (\<exists>samples. decoded_samples av audio_data fmt = Inr samples \<and>
         (samples_int16 ub samples = Inl e \<or>
          (\<exists>s16. samples_int16 ub samples = Inr s16 \<and> wav_buffer s16 = Inl e)))"
    unfolding convert_to_wav_Inl_iff decoded_samples_Inl_iff by blast
next
  assume "detect_audio_format audio_data \<noteq> Some ''wav'' \<and>
    convert_to_wav av ub audio_data (detect_audio_format audio_data) = Inl e"
  then have "transcribe_audio av ub model temp_path fs audio_data = (conversion_failed e, fs)"
    by (intro transcribe_audio_conversion_failed) simp_all
  then show "transcribe_audio av ub model temp_path fs audio_data =
        (\<lparr>res_success = False, res_text = [],
          res_error = Some (''Audio conversion failed: '' @ exc_str e),
          res_language = None, res_duration = None\<rparr>, fs)"
    by (simp add: conversion_failed_def)
next
  show "''Audio conversion failed: '' @ exc_str e \<noteq> []" by simp
qed

theorem conversion_failure_is_structured_witness:
  "detect_audio_format [0, 1, 2, 3, 4] \<noteq> Some ''wav'' \<and>
   convert_to_wav (\<lambda>b f. Inl (PyException ''InvalidDataError'' ''Invalid data found when processing input''))
      (\<lambda>x. 0) [0, 1, 2, 3, 4] (detect_audio_format [0, 1, 2, 3, 4]) =
        Inl (PyException ''InvalidDataError'' ''Invalid data found when processing input'') \<and>
   transcribe_audio (\<lambda>b f. Inl (PyException ''InvalidDataError'' ''Invalid data found when processing input''))
      (\<lambda>x. 0) (\<lambda>fs p. Inr ([''hello''], ''en'', Fin 1)) ''/tmp/a.wav'' Map.empty [0, 1, 2, 3, 4] =
        (\<lparr>res_success = False, res_text = [],
          res_error = Some ''Audio conversion failed: Invalid data found when processing input'',
          res_language = None, res_duration = None\<rparr>, Map.empty)"
proof -
  have d: "detect_audio_format [0, 1, 2, 3, 4] = None"
    by (simp add: detect_audio_format_def ascii_def)
  show ?thesis
    using conversion_failure_is_structured
      [of "\<lambda>b f. Inl (PyException ''InvalidDataError'' ''Invalid data found when processing input'')"
        "\<lambda>x. 0" "[0, 1, 2, 3, 4]" None
        "PyException ''InvalidDataError'' ''Invalid data found when processing input''"
        "\<lambda>fs p. Inr ([''hello''], ''en'', Fin 1)" "''/tmp/a.wav''" Map.empty]
    by (simp add: d)
qed

text \<open>
  Claim C8.  For a blob whose first four bytes are \<open>RIFF\<close>, the temporary file given to
  the model holds exactly the bytes of the blob, the result is what the model yields
  for it, the file is removed afterwards, and neither PyAV nor the quantization takes
  part: the outcome is the same for every decoder \<open>av'\<close> and every \<open>ub'\<close>.
\<close>

theorem wav_passes_through:
  assumes "take 4 audio_data = [0x52, 0x49, 0x46, 0x46]"
  shows "transcribe_audio av ub model temp_path fs audio_data =
           (transcribed (model (fs(temp_path \<mapsto> audio_data)) temp_path), fs(temp_path := None)) \<and>
         transcribe_audio av' ub' model temp_path fs audio_data =
           transcribe_audio av ub model temp_path fs audio_data"
proof -
  have "detect_audio_format audio_data = Some ''wav''"
    using assms by (simp add: detect_audio_format_def ascii_def)
  then show ?thesis by (simp add: transcribe_audio_def)
qed

theorem wav_passes_through_witness:
  "take 4 [0x52, 0x49, 0x46, 0x46, 0x24, 0x00 :: byte] = [0x52, 0x49, 0x46, 0x46] \<and>
   transcribe_audio (\<lambda>b f. Inl (PyException ''E'' ''unused'')) (\<lambda>x. 0)
      (\<lambda>fs p. if fs p = Some [0x52, 0x49, 0x46, 0x46, 0x24, 0x00]
               then Inr (['' hello'', ''world  ''], ''en'', Fin 2)
               else Inl (PyException ''E'' ''other content''))
      ''/tmp/a.wav'' Map.empty [0x52, 0x49, 0x46, 0x46, 0x24, 0x00] =
     (\<lparr>res_success = True, res_text = ''hello world'', res_error = None,
       res_language = Some ''en'', res_duration = Some (Fin 2)\<rparr>, Map.empty)"
proof -
  have s: "strip '' hello'' = ''hello''" "strip ''world  '' = ''world''"
    "strip ''hello world'' = ''hello world''"
    by (simp_all add: strip_def isspace_def)
  show ?thesis
    using wav_passes_through [of "[0x52, 0x49, 0x46, 0x46, 0x24, 0x00]"
        "\<lambda>b f. Inl (PyException ''E'' ''unused'')" "\<lambda>x. 0"
        "\<lambda>fs p. if fs p = Some [0x52, 0x49, 0x46, 0x46, 0x24, 0x00]
               then Inr (['' hello'', ''world  ''], ''en'', Fin 2)
               else Inl (PyException ''E'' ''other content'')"
        "''/tmp/a.wav''" Map.empty]
    by (simp add: transcribed_def s)
qed

section \<open>Properties of normalization and quantization\<close>

subsection \<open>Rounding to \<open>float32\<close>\<close>

lemma find_upt_least:
  assumes "k < n" "P k"
  shows "\<exists>j\<le>k. find P [0..<n] = Some j \<and> P j"
proof -
  have "find P [0..<n] \<noteq> None"
    using assms by (auto simp add: find_None_iff)
  then obtain j where j: "find P [0..<n] = Some j" by auto
  then obtain i where i: "i < n" "P ([0..<n] ! i)" "j = [0..<n] ! i" "\<forall>l<i. \<not> P ([0..<n] ! l)"
    by (auto simp add: find_Some_iff)
  have ji: "j = i" using i by simp
  have "j \<le> k"
  proof (rule ccontr)
    assume "\<not> j \<le> k"
    then have "k < i" using ji by simp
    then have "\<not> P ([0..<n] ! k)" using i(4) by blast
    then show False using assms by simp
  qed
  moreover have "P j" using i by simp
  ultimately show ?thesis using j by blast
qed

lemma round_half_even_floor_ceiling:
  "\<lfloor>x\<rfloor> \<le> round_half_even x \<and> round_half_even x \<le> \<lceil>x\<rceil>"
proof (cases "x = of_int \<lfloor>x\<rfloor>")
  case True
  then have "x - of_int \<lfloor>x\<rfloor> = 0" by simp
  then have "round_half_even x = \<lfloor>x\<rfloor>"
    by (simp add: round_half_even_def Let_def)
  then show ?thesis by simp
next
  case False
  then have "\<lceil>x\<rceil> = \<lfloor>x\<rfloor> + 1"
    by (metis ceiling_altdef)
  then show ?thesis
    by (simp add: round_half_even_def Let_def)
qed

lemma round_half_even_le:
  assumes "x \<le> of_int M"
  shows "round_half_even x \<le> M"
proof -
  have "\<lceil>x\<rceil> \<le> M" using assms by (simp add: ceiling_le_iff)
  then show ?thesis using round_half_even_floor_ceiling [of x] by linarith
qed

lemma round_half_even_ge:
  assumes "of_int M \<le> x"
  shows "M \<le> round_half_even x"
proof -
  have "M \<le> \<lfloor>x\<rfloor>" using assms by (simp add: le_floor_iff)
  then show ?thesis using round_half_even_floor_ceiling [of x] by linarith
qed

lemma round_half_even_of_int: "round_half_even (of_int n) = n"
  by (simp add: round_half_even_def)

lemma ulp_pos: "0 < ulp k"
  by (simp add: ulp_def)

lemma ulp_149: "ulp 149 = 1"
  by (simp add: ulp_def)

lemma ulp_le: "j \<le> k \<Longrightarrow> ulp k = of_int (2 ^ (k - j)) * ulp j"
proof -
  assume "j \<le> k"
  then have "(2::rat) ^ k = 2 ^ (k - j) * 2 ^ j"
    by (simp flip: power_add)
  then show ?thesis by (simp add: ulp_def)
qed


lemma round32_bounded:
  fixes N :: int
  assumes N: "0 \<le> N" "N < 2 ^ 24" and q: "\<bar>q\<bar> \<le> of_int N"
  shows "\<exists>r. round32 q = Fin r \<and> \<bar>r\<bar> \<le> of_int N"
proof -
  have "\<bar>q\<bar> < 2 ^ 24 * ulp 149"
  proof -
    have "(of_int N :: rat) < of_int (2 ^ 24)" using N(2) by (simp only: of_int_less_iff)
    then show ?thesis using q by (simp add: ulp_149)
  qed
  then obtain j where j: "j \<le> 149" "find (\<lambda>k. \<bar>q\<bar> < 2 ^ 24 * ulp k) [0..<254] = Some j"
    using find_upt_least [of 149 254 "\<lambda>k. \<bar>q\<bar> < 2 ^ 24 * ulp k"] by auto
  define M where "M = N * 2 ^ (149 - j)"
  have u: "of_int (2 ^ (149 - j)) * ulp j = 1"
    using ulp_le [OF j(1)] by (simp add: ulp_149)
  have Mu: "of_int M * ulp j = of_int N"
  proof -
    have "of_int M * ulp j = of_int N * (of_int (2 ^ (149 - j)) * ulp j)"
      by (simp add: M_def)
    then show ?thesis by (simp only: u mult_1_right)
  qed
  have x: "\<bar>q / ulp j\<bar> \<le> of_int M"
  proof -
    have "\<bar>q\<bar> \<le> of_int M * ulp j" using q Mu by simp
    then have "\<bar>q\<bar> / ulp j \<le> of_int M"
      using ulp_pos [of j] by (simp add: pos_divide_le_eq)
    then show ?thesis using ulp_pos [of j] by simp
  qed
  define m where "m = round_half_even (q / ulp j)"
  have x1: "q / ulp j \<le> of_int M"
    using x by (rule abs_le_D1)
  have "- (q / ulp j) \<le> of_int M"
    using x by (rule abs_le_D2)
  then have x2: "of_int (- M) \<le> q / ulp j" by simp
  have "m \<le> M"
    unfolding m_def using x1 by (rule round_half_even_le)
  moreover have "- M \<le> m"
    unfolding m_def using x2 by (rule round_half_even_ge)
  ultimately have "m \<le> M" "- M \<le> m" by simp_all
  then have "\<bar>m\<bar> \<le> M" by simp
  then have "\<bar>of_int m :: rat\<bar> \<le> of_int M"
    by (metis of_int_abs of_int_le_iff)
  then have "\<bar>of_int m * ulp j\<bar> \<le> of_int M * ulp j"
    using ulp_pos [of j] by (simp add: abs_mult mult_right_mono)
  then have r: "\<bar>of_int m * ulp j\<bar> \<le> of_int N" by (simp only: Mu)
  have "(of_int N :: rat) < of_int (2 ^ 24)" using N(2) by (simp only: of_int_less_iff)
  then have "\<bar>of_int m * ulp j\<bar> < 2 ^ 128" using r by simp
  then have "\<not> 2 ^ 128 \<le> \<bar>of_int m * ulp j\<bar>" by simp
  then have "round32 q = Fin (of_int m * ulp j)"
    unfolding round32_def j(2) m_def by (simp add: Let_def)
  then show ?thesis using r by blast
qed

lemma round32_exact:
  assumes m: "\<bar>m\<bar> < 2 ^ 24" and k: "k < 254" and q: "q = of_int m * ulp k"
  shows "round32 q = Fin q"
proof -
  have "\<bar>q\<bar> < 2 ^ 24 * ulp k"
  proof -
    have "\<bar>of_int m :: rat\<bar> < of_int (2 ^ 24)"
      using m by (metis of_int_abs of_int_less_iff)
    then show ?thesis using ulp_pos [of k] by (simp add: q abs_mult)
  qed
  then obtain j where j: "j \<le> k" "find (\<lambda>k. \<bar>q\<bar> < 2 ^ 24 * ulp k) [0..<254] = Some j"
    using find_upt_least [of k 254 "\<lambda>k. \<bar>q\<bar> < 2 ^ 24 * ulp k"] k by auto
  have "q / ulp j = of_int (m * 2 ^ (k - j))"
    using ulp_pos [of j] by (simp add: q ulp_le [OF j(1)])
  then have "round_half_even (q / ulp j) = m * 2 ^ (k - j)"
    by (simp only: round_half_even_of_int)
  then have r: "of_int (round_half_even (q / ulp j)) * ulp j = q"
    by (simp add: q ulp_le [OF j(1)])
  have "ulp k \<le> ulp 253"
    using k ulp_le [of k 253] ulp_pos [of k] by (simp add: mult_le_cancel_right1)
  then have "2 ^ 24 * ulp k \<le> 2 ^ 24 * ulp 253" by simp
  moreover have "2 ^ 24 * ulp 253 = 2 ^ 128" by (simp add: ulp_def)
  ultimately have "\<bar>q\<bar> < 2 ^ 128" using \<open>\<bar>q\<bar> < 2 ^ 24 * ulp k\<close> by linarith
  then have "\<not> 2 ^ 128 \<le> \<bar>q\<bar>" by simp
  then show ?thesis
    unfolding round32_def j(2) by (simp add: r Let_def)
qed

subsection \<open>Arrays of finite values\<close>

lemma all_fin_map: "list_all is_fin arr \<Longrightarrow> \<exists>vals. arr = map Fin vals"
proof (induction arr)
  case Nil
  then show ?case by simp
next
  case (Cons x arr)
  then obtain q where q: "x = Fin q" by (cases x) simp_all
  from Cons obtain vals where vals: "arr = map Fin vals" by auto
  have "x # arr = map Fin (q # vals)" using q vals by simp
  then show ?case by (rule exI [of _ "q # vals"])
qed

lemma fp_max2_Fin: "fp_max2 (Fin a) (Fin b) = Fin (max a b)"
  by (simp add: fp_max2_def max_def)

lemma foldl_fp_max2_Fin: "foldl fp_max2 (Fin a) (map Fin bs) = Fin (fold max bs a)"
  by (induction bs arbitrary: a) (simp_all add: fp_max2_Fin max.commute)

lemma max_val_Fin:
  assumes "vals \<noteq> []"
  shows "max_val (map Fin vals) = Inr (Fin (Max (set (map abs vals))))"
proof -
  obtain v rest where v: "vals = v # rest" using assms by (cases vals) auto
  have "map np_abs (map Fin vals) = Fin \<bar>v\<bar> # map Fin (map abs rest)"
    by (simp add: v)
  then have "max_val (map Fin vals) = Inr (Fin (fold max (map abs rest) \<bar>v\<bar>))"
    by (simp only: max_val_def np_max.simps foldl_fp_max2_Fin)
  moreover have "Max (set (map abs vals)) = fold max (map abs rest) \<bar>v\<bar>"
    using Max.set_eq_fold [of "\<bar>v\<bar>" "map abs rest"] by (simp add: v)
  ultimately show ?thesis by simp
qed

lemma peak_bounds:
  fixes v :: rat
  assumes "v \<in> set vals"
  shows "\<bar>v\<bar> \<le> Max (set (map abs vals))" "0 \<le> Max (set (map abs vals))"
proof -
  show a: "\<bar>v\<bar> \<le> Max (set (map abs vals))"
    using assms by (intro Max_ge) auto
  show "0 \<le> Max (set (map abs vals))"
    using a abs_ge_zero [of v] by linarith
qed

lemma trunc_bounded: "\<bar>t\<bar> \<le> of_int N \<Longrightarrow> \<bar>trunc t\<bar> \<le> N"
proof -
  assume t: "\<bar>t\<bar> \<le> of_int N"
  show ?thesis
  proof (cases "0 \<le> t")
    case True
    then have "\<lfloor>t\<rfloor> \<le> N" "0 \<le> \<lfloor>t\<rfloor>" using t by (simp_all add: floor_le_iff)
    then show ?thesis using True by (simp add: trunc_def)
  next
    case False
    then have "- N \<le> \<lceil>t\<rceil>" "\<lceil>t\<rceil> \<le> 0" using t
      by (simp_all add: le_ceiling_iff ceiling_le_iff)
    then show ?thesis using False by (simp add: trunc_def)
  qed
qed

lemma sint_int16: "\<bar>k\<bar> \<le> 32767 \<Longrightarrow> sint (word_of_int k :: 16 word) = k"
  by (simp add: sint_sbintrunc' signed_take_bit_int_eq_self)

lemma quantize_scaled:
  assumes v: "\<bar>v\<bar> \<le> peak" and p: "0 < peak"
  shows "\<exists>s t. f32_div (Fin v) (Fin peak) = Fin s \<and> round32 (v / peak) = Fin s \<and> \<bar>s\<bar> \<le> 1 \<and>
           f32_mul (Fin s) (Fin 32767) = Fin t \<and> round32 (s * 32767) = Fin t \<and> \<bar>t\<bar> \<le> 32767 \<and>
           astype_int16 ub (Fin t) = word_of_int (trunc t) \<and>
           sint (word_of_int (trunc t) :: 16 word) = trunc t \<and> \<bar>trunc t\<bar> \<le> 32767"
proof -
  have "\<bar>v / peak\<bar> \<le> of_int 1" using v p by simp
  then obtain s where s: "round32 (v / peak) = Fin s" "\<bar>s\<bar> \<le> of_int 1"
    using round32_bounded [of 1 "v / peak"] by auto
  have "\<bar>s * 32767\<bar> \<le> of_int 32767" using s(2) by (simp add: abs_mult)
  then obtain t where t: "round32 (s * 32767) = Fin t" "\<bar>t\<bar> \<le> of_int 32767"
    using round32_bounded [of 32767 "s * 32767"] by auto
  have tr: "\<bar>trunc t\<bar> \<le> 32767" using t(2) by (rule trunc_bounded)
  have "- 32769 < t \<and> t < 32768" using t(2) by (simp add: abs_le_iff)
  then have a: "astype_int16 ub (Fin t) = word_of_int (trunc t)" by simp
  have d: "f32_div (Fin v) (Fin peak) = Fin s" using p s(1) by simp
  have m: "f32_mul (Fin s) (Fin 32767) = Fin t" using t(1) by simp
  show ?thesis using s t tr a d m sint_int16 [OF tr] by auto
qed

lemma round32_zero: "round32 0 = Fin 0"
  using round32_exact [of 0 0 0] by simp

lemma quantize_finite:
  assumes ne: "samples \<noteq> []" and arr: "samples_array samples = map Fin vals"
  shows "max_val (samples_array samples) = Inr (Fin (peak_amplitude vals))"
    and "0 \<le> peak_amplitude vals"
    and "length vals = length samples"
    and "samples_int16 ub samples =
           Inr (map (\<lambda>x. astype_int16 ub (f32_mul x (Fin 32767)))
                 (normalized (Fin (peak_amplitude vals)) (map Fin vals)))"
    and "0 < peak_amplitude vals \<Longrightarrow>
           normalized (Fin (peak_amplitude vals)) (map Fin vals) =
             map (\<lambda>v. round32 (v / peak_amplitude vals)) vals"
    and "peak_amplitude vals = 0 \<Longrightarrow>
           normalized (Fin (peak_amplitude vals)) (map Fin vals) = map Fin vals \<and>
           vals = replicate (length samples) 0"
proof -
  have len: "length vals = length samples"
  proof -
    have "length (samples_array samples) = length samples" by (simp add: samples_array_def)
    then show ?thesis by (simp add: arr)
  qed
  then have vne: "vals \<noteq> []" using ne by auto
  show "length vals = length samples" by (rule len)
  show mx: "max_val (samples_array samples) = Inr (Fin (peak_amplitude vals))"
    unfolding arr peak_amplitude_def by (rule max_val_Fin [OF vne])
  obtain v where "v \<in> set vals" using vne by (cases vals) auto
  then show nn: "0 \<le> peak_amplitude vals"
    unfolding peak_amplitude_def by (rule peak_bounds(2))
  show "samples_int16 ub samples =
           Inr (map (\<lambda>x. astype_int16 ub (f32_mul x (Fin 32767)))
                 (normalized (Fin (peak_amplitude vals)) (map Fin vals)))"
    using ne by (simp add: samples_int16_def mx) (simp add: arr)
  show "normalized (Fin (peak_amplitude vals)) (map Fin vals) =
             map (\<lambda>v. round32 (v / peak_amplitude vals)) vals"
    if "0 < peak_amplitude vals"
    using that by (simp add: normalized_def)
  show "normalized (Fin (peak_amplitude vals)) (map Fin vals) = map Fin vals \<and>
           vals = replicate (length samples) 0"
    if z: "peak_amplitude vals = 0"
  proof -
    have "\<forall>v\<in>set vals. v = 0"
    proof
      fix v assume "v \<in> set vals"
      then have "\<bar>v\<bar> \<le> peak_amplitude vals"
        unfolding peak_amplitude_def by (rule peak_bounds(1))
      then show "v = 0" using z by simp
    qed
    then have "vals = replicate (length vals) 0"
      by (simp add: replicate_length_same)
    then show ?thesis using z len by (simp add: normalized_def)
  qed
qed

lemma quantize_sample:
  assumes ne: "samples \<noteq> []" and arr: "samples_array samples = map Fin vals"
    and i: "i < length samples"
  shows "\<exists>s16 s t. samples_int16 ub samples = Inr s16 \<and> length s16 = length samples \<and>
           normalized (Fin (peak_amplitude vals)) (map Fin vals) ! i = Fin s \<and>
           s = (if 0 < peak_amplitude vals
                then (case round32 (vals ! i / peak_amplitude vals) of Fin r \<Rightarrow> r | _ \<Rightarrow> 0)
                else vals ! i) \<and>
           \<bar>s\<bar> \<le> 1 \<and> round32 (s * 32767) = Fin t \<and> \<bar>t\<bar> \<le> 32767 \<and>
           s16 ! i = word_of_int (trunc t) \<and> sint (s16 ! i) = trunc t \<and> \<bar>trunc t\<bar> \<le> 32767"
proof -
  note q = quantize_finite [OF ne arr]
  have iv: "i < length vals" using i q(3) by simp
  define nrm where "nrm = normalized (Fin (peak_amplitude vals)) (map Fin vals)"
  define s16 where "s16 = map (\<lambda>x. astype_int16 ub (f32_mul x (Fin 32767))) nrm"
  have r: "samples_int16 ub samples = Inr s16"
    unfolding s16_def nrm_def by (rule q(4))
  have ln: "length nrm = length samples"
    using q(3) by (simp add: nrm_def normalized_def)
  then have ls: "length s16 = length samples" by (simp add: s16_def)
  have si: "s16 ! i = astype_int16 ub (f32_mul (nrm ! i) (Fin 32767))"
    using i ln by (simp add: s16_def)
  show ?thesis
  proof (cases "0 < peak_amplitude vals")
    case True
    have "\<bar>vals ! i\<bar> \<le> peak_amplitude vals"
      unfolding peak_amplitude_def using iv by (intro peak_bounds(1)) simp
    from quantize_scaled [OF this True, of ub]
    obtain s t where st: "f32_div (Fin (vals ! i)) (Fin (peak_amplitude vals)) = Fin s"
      "round32 (vals ! i / peak_amplitude vals) = Fin s" "\<bar>s\<bar> \<le> 1"
      "f32_mul (Fin s) (Fin 32767) = Fin t" "round32 (s * 32767) = Fin t" "\<bar>t\<bar> \<le> 32767"
      "astype_int16 ub (Fin t) = word_of_int (trunc t)"
      "sint (word_of_int (trunc t) :: 16 word) = trunc t" "\<bar>trunc t\<bar> \<le> 32767"
      by blast
    have ni: "nrm ! i = Fin s"
      using iv st(2) by (simp add: nrm_def q(5) [OF True])
    have "s16 ! i = word_of_int (trunc t)"
      by (simp only: si ni st(4) st(7))
    then show ?thesis
      using r ls ni st True unfolding nrm_def by auto
  next
    case False
    then have z: "peak_amplitude vals = 0" using q(2) by simp
    have v0: "vals ! i = 0"
    proof -
      have "vals = replicate (length samples) 0" using q(6) [OF z] by simp
      then have "vals ! i = replicate (length samples) 0 ! i" by simp
      then show ?thesis using i by simp
    qed
    have "nrm = map Fin vals"
      unfolding nrm_def by (rule q(6) [OF z, THEN conjunct1])
    then have ni: "nrm ! i = Fin 0"
      using iv v0 by simp
    have "s16 ! i = word_of_int (trunc 0)"
      by (simp add: si ni round32_zero)
    then have "s16 ! i = 0" by (simp add: trunc_def)
    then show ?thesis
      using r ls ni v0 False unfolding nrm_def
      by (auto simp add: round32_zero trunc_def)
  qed
qed

subsection \<open>Arrays with values that are not finite\<close>

lemma foldl_fp_max2_Fin_D:
  "acc \<noteq> NInf \<Longrightarrow> foldl fp_max2 acc (map np_abs ys) = Fin m \<Longrightarrow>
   (\<exists>q. acc = Fin q \<and> q \<le> m) \<and> list_all is_fin ys"
proof (induction ys arbitrary: acc)
  case Nil
  then show ?case by simp
next
  case (Cons y ys)
  have n: "fp_max2 acc (np_abs y) \<noteq> NInf"
    using Cons.prems(1) by (cases acc; cases y) (simp_all add: fp_max2_def)
  have f: "foldl fp_max2 (fp_max2 acc (np_abs y)) (map np_abs ys) = Fin m"
    using Cons.prems(2) by simp
  from Cons.IH [OF n f] obtain q where q: "fp_max2 acc (np_abs y) = Fin q" "q \<le> m"
    and ys: "list_all is_fin ys" by blast
  have "(\<exists>a. acc = Fin a \<and> a \<le> q) \<and> is_fin y"
    using q(1) Cons.prems(1)
    by (cases acc; cases y) (auto simp add: fp_max2_def split: if_splits)
  then show ?case using q(2) ys by auto
qed

lemma max_val_Fin_finite:
  assumes "max_val arr = Inr (Fin m)"
  shows "list_all is_fin arr"
proof (cases arr)
  case Nil
  then show ?thesis by simp
next
  case (Cons x xs)
  then have f: "foldl fp_max2 (np_abs x) (map np_abs xs) = Fin m"
    using assms by (simp add: max_val_def)
  have n: "np_abs x \<noteq> NInf" by (cases x) simp_all
  from foldl_fp_max2_Fin_D [OF n f] have "is_fin (np_abs x)" "list_all is_fin xs"
    by auto
  moreover have "is_fin x" using \<open>is_fin (np_abs x)\<close> by (cases x) simp_all
  ultimately show ?thesis using Cons by simp
qed

lemma astype_int16_in_range:
  assumes "- 32769 < t" "t < 32768"
  shows "astype_int16 ub (Fin t) = word_of_int (trunc t)"
    and "sint (word_of_int (trunc t) :: 16 word) = trunc t"
proof -
  show "astype_int16 ub (Fin t) = word_of_int (trunc t)" using assms by simp
  have "- 32768 \<le> trunc t \<and> trunc t < 32768"
  proof (cases "0 \<le> t")
    case True
    then have "0 \<le> \<lfloor>t\<rfloor>" "\<lfloor>t\<rfloor> < 32768" using assms(2) by (simp_all add: floor_less_iff)
    then show ?thesis using True by (simp add: trunc_def)
  next
    case False
    then have "\<lceil>t\<rceil> \<le> 0" "- 32769 < \<lceil>t\<rceil>" using assms(1)
      by (simp_all add: ceiling_le_iff less_ceiling_iff)
    then show ?thesis using False by (simp add: trunc_def)
  qed
  then show "sint (word_of_int (trunc t) :: 16 word) = trunc t"
    by (simp add: sint_sbintrunc' signed_take_bit_int_eq_self)
qed


lemma round32_underflow: "round32 (1 / 2 ^ 160) = Fin 0"
proof -
  define q :: rat where "q = 1 / 2 ^ 160"
  have p: "\<bar>q\<bar> < 2 ^ 24 * ulp 0" by (simp add: ulp_def q_def)
  obtain j where j: "j \<le> 0" "find (\<lambda>k. \<bar>q\<bar> < 2 ^ 24 * ulp k) [0..<254] = Some j"
    using find_upt_least [of 0 254 "\<lambda>k. \<bar>q\<bar> < 2 ^ 24 * ulp k"] p by auto
  have j0: "j = 0" using j(1) by simp
  have d: "q / ulp 0 = 1 / 2048" by (simp add: ulp_def q_def)
  have "\<lfloor>1 / 2048 :: rat\<rfloor> = 0" by (rule floor_unique) simp_all
  then have "round_half_even (1 / 2048) = 0"
    by (simp add: round_half_even_def Let_def)
  then have r: "of_int (round_half_even (q / ulp 0)) * ulp 0 = 0"
    unfolding d by simp
  have "round32 q = Fin 0"
    unfolding round32_def j(2) j0 option.case Let_def r by simp
  then show ?thesis by (simp only: q_def)
qed

lemma samples_int16_unfold:
  assumes "samples \<noteq> []"
  shows "\<exists>mx. max_val (samples_array samples) = Inr mx \<and>
           samples_int16 ub samples =
             Inr (map (\<lambda>x. astype_int16 ub (f32_mul x (Fin 32767)))
                   (normalized mx (samples_array samples))) \<and>
           length (normalized mx (samples_array samples)) = length samples"
proof -
  have "samples_array samples \<noteq> []" using assms by (simp add: samples_array_def)
  then obtain mx where mx: "max_val (samples_array samples) = Inr mx"
    using max_val_nonempty by blast
  have "length (normalized mx (samples_array samples)) = length samples"
    by (simp add: normalized_def samples_array_def)
  then show ?thesis using assms mx by (simp add: samples_int16_def)
qed

lemma astype_int16_undefined:
  assumes "\<forall>t. x = Fin t \<longrightarrow> \<not> (- 32769 < t \<and> t < 32768)"
  shows "astype_int16 ub x = ub x"
  using assms by (cases x) auto

subsection \<open>The claims about quantization\<close>

lemma round32_values:
  "round32 (1 / 4) = Fin (1 / 4)"
  "round32 1 = Fin 1"
  "round32 (1 / 2) = Fin (1 / 2)"
  "round32 (- 1) = Fin (- 1)"
  "round32 (32767 / 4) = Fin (32767 / 4)"
  "round32 (32767 / 2) = Fin (32767 / 2)"
  "round32 32767 = Fin 32767"
  "round32 (- 32767) = Fin (- 32767)"
proof -
  show "round32 (1 / 4) = Fin (1 / 4)"
    by (rule round32_exact [of 1 147]) (simp_all add: ulp_def)
  show "round32 1 = Fin 1"
    by (rule round32_exact [of 1 149]) (simp_all add: ulp_def)
  show "round32 (1 / 2) = Fin (1 / 2)"
    by (rule round32_exact [of 1 148]) (simp_all add: ulp_def)
  show "round32 (- 1) = Fin (- 1)"
    by (rule round32_exact [of "- 1" 149]) (simp_all add: ulp_def)
  show "round32 (32767 / 4) = Fin (32767 / 4)"
    by (rule round32_exact [of 32767 147]) (simp_all add: ulp_def)
  show "round32 (32767 / 2) = Fin (32767 / 2)"
    by (rule round32_exact [of 32767 148]) (simp_all add: ulp_def)
  show "round32 32767 = Fin 32767"
    by (rule round32_exact [of 32767 149]) (simp_all add: ulp_def)
  show "round32 (- 32767) = Fin (- 32767)"
    by (rule round32_exact [of "- 32767" 149]) (simp_all add: ulp_def)
qed

lemma example_quarter:
  "samples_array [Fin (1 / 4), Fin 1] = [Fin (1 / 4), Fin 1]"
  "max_val [Fin (1 / 4), Fin 1] = Inr (Fin 1)"
  "normalized (Fin 1) [Fin (1 / 4), Fin 1] = [Fin (1 / 4), Fin 1]"
  "samples_int16 ub [Fin (1 / 4), Fin 1] = Inr [8191, 32767]"
proof -
  show a: "samples_array [Fin (1 / 4), Fin 1] = [Fin (1 / 4), Fin 1]"
    by (simp add: samples_array_def round32_values)
  show m: "max_val [Fin (1 / 4), Fin 1] = Inr (Fin 1)"
    by (simp add: max_val_def fp_max2_def)
  show n: "normalized (Fin 1) [Fin (1 / 4), Fin 1] = [Fin (1 / 4), Fin 1]"
    by (simp add: normalized_def round32_values)
  have "\<lfloor>32767 / 4 :: rat\<rfloor> = 8191"
    by (rule floor_unique) simp_all
  then have t: "trunc (32767 / 4) = 8191" "trunc 32767 = 32767"
    by (simp_all add: trunc_def)
  show "samples_int16 ub [Fin (1 / 4), Fin 1] = Inr [8191, 32767]"
    by (simp add: samples_int16_def a m n round32_values t)
qed

text \<open>
  Claim C2 as stated (each normalized sample \<open>s\<close> becomes \<open>round(s * 32767)\<close>, clamped)
  fails.  For the decoded samples \<open>0.25, 1.0\<close> the peak is 1, the normalized samples are
  \<open>0.25, 1.0\<close>, and \<open>0.25 * 32767 = 8191.75\<close> exactly in \<open>float32\<close>: the code stores 8191,
  the specified quantizer gives 8192.  The input is not a tie, so every rounding to
  nearest gives 8192.
\<close>

theorem quantize_rounds_counterexample:
  "normalized (Fin 1) (samples_array [Fin (1 / 4), Fin 1]) = [Fin (1 / 4), Fin 1] \<and>
   samples_int16 (\<lambda>x. 0) [Fin (1 / 4), Fin 1] = Inr [8191, 32767] \<and>
   map spec_quantize [1 / 4, 1] = [8192, 32767] \<and>
   [8191, 32767 :: 16 word] \<noteq> [8192, 32767]"
proof -
  have "\<lfloor>32769 / 4 :: rat\<rfloor> = 8192" "\<lfloor>65535 / 2 :: rat\<rfloor> = 32767"
    by (rule floor_unique; simp)+
  then have "round (32767 / 4 :: rat) = 8192" "round (32767 :: rat) = 32767"
    by (simp_all add: round_def)
  then have "map spec_quantize [1 / 4, 1] = [8192, 32767]"
    by (simp add: spec_quantize_def)
  then show ?thesis by (simp add: example_quarter)
qed

text \<open>
  Claim C2, amended.  For every non-empty decoded sequence and every normalized sample,
  with \<open>t\<close> the \<open>float32\<close> product of the sample and 32767: when \<open>t\<close> is finite and
  \<open>- 32769 < t < 32768\<close>, the stored 16-bit integer is \<open>t\<close> truncated toward zero (the
  floor of a non-negative \<open>t\<close>, the ceiling of a negative one), and the stored word
  read as a signed integer is that value: \<open>astype(np.int16)\<close> truncates, it does not
  round.  Nothing is clamped: for any other product (NaN, an infinity, a finite value
  out of range) the stored value is what the conversion of the platform yields.  When
  every element of the \<open>float32\<close> array is finite, every normalized sample is finite
  and every product lies in \<open>[-32767, 32767]\<close>, so the truncated product is stored
  for every sample.
\<close>

theorem quantize_truncates:
  assumes "samples \<noteq> []"
  shows "\<exists>mx s16. max_val (samples_array samples) = Inr mx \<and>
           samples_int16 ub samples = Inr s16 \<and> length s16 = length samples \<and>
           (\<forall>i<length samples. \<forall>t.
              f32_mul (normalized mx (samples_array samples) ! i) (Fin 32767) = Fin t \<and>
              - 32769 < t \<and> t < 32768 \<longrightarrow>
                s16 ! i = word_of_int (if 0 \<le> t then \<lfloor>t\<rfloor> else \<lceil>t\<rceil>) \<and>
                sint (s16 ! i) = (if 0 \<le> t then \<lfloor>t\<rfloor> else \<lceil>t\<rceil>)) \<and>
           (\<forall>i<length samples.
              (\<forall>t. f32_mul (normalized mx (samples_array samples) ! i) (Fin 32767) = Fin t \<longrightarrow>
                     \<not> (- 32769 < t \<and> t < 32768)) \<longrightarrow>
                s16 ! i = ub (f32_mul (normalized mx (samples_array samples) ! i) (Fin 32767))) \<and>
           (list_all is_fin (samples_array samples) \<longrightarrow>
              (\<forall>i<length samples. \<exists>s t.
                 normalized mx (samples_array samples) ! i = Fin s \<and>
                 f32_mul (Fin s) (Fin 32767) = Fin t \<and> - 32767 \<le> t \<and> t \<le> 32767 \<and>
                 s16 ! i = word_of_int (if 0 \<le> t then \<lfloor>t\<rfloor> else \<lceil>t\<rceil>) \<and>
                 sint (s16 ! i) = (if 0 \<le> t then \<lfloor>t\<rfloor> else \<lceil>t\<rceil>)))"
proof -
  from samples_int16_unfold [OF assms, of ub] obtain mx where
    mx: "max_val (samples_array samples) = Inr mx"
    and r: "samples_int16 ub samples =
             Inr (map (\<lambda>x. astype_int16 ub (f32_mul x (Fin 32767)))
                   (normalized mx (samples_array samples)))"
    and ln: "length (normalized mx (samples_array samples)) = length samples"
    by blast
  define nrm where "nrm = normalized mx (samples_array samples)"
  define s16 where "s16 = map (\<lambda>x. astype_int16 ub (f32_mul x (Fin 32767))) nrm"
  have ls: "length s16 = length samples" using ln by (simp add: s16_def nrm_def)
  have si: "s16 ! i = astype_int16 ub (f32_mul (nrm ! i) (Fin 32767))"
    if "i < length samples" for i
    using that ln by (simp add: s16_def nrm_def)
  have a: "s16 ! i = word_of_int (if 0 \<le> t then \<lfloor>t\<rfloor> else \<lceil>t\<rceil>) \<and>
           sint (s16 ! i) = (if 0 \<le> t then \<lfloor>t\<rfloor> else \<lceil>t\<rceil>)"
    if i: "i < length samples"
      and t: "f32_mul (nrm ! i) (Fin 32767) = Fin t \<and> - 32769 < t \<and> t < 32768"
    for i t
  proof -
    have lo: "- 32769 < t" and hi: "t < 32768" using t by simp_all
    have "s16 ! i = word_of_int (trunc t)"
      using si [OF i] t astype_int16_in_range(1) [OF lo hi, of ub] by simp
    then show ?thesis
      using astype_int16_in_range(2) [OF lo hi] by (simp add: trunc_def)
  qed
  have b: "s16 ! i = ub (f32_mul (nrm ! i) (Fin 32767))"
    if i: "i < length samples"
      and n: "\<forall>t. f32_mul (nrm ! i) (Fin 32767) = Fin t \<longrightarrow> \<not> (- 32769 < t \<and> t < 32768)"
    for i
    using si [OF i] astype_int16_undefined [OF n, of ub] by simp
  have c: "\<exists>s t. nrm ! i = Fin s \<and> f32_mul (Fin s) (Fin 32767) = Fin t \<and>
                 - 32767 \<le> t \<and> t \<le> 32767 \<and>
                 s16 ! i = word_of_int (if 0 \<le> t then \<lfloor>t\<rfloor> else \<lceil>t\<rceil>) \<and>
                 sint (s16 ! i) = (if 0 \<le> t then \<lfloor>t\<rfloor> else \<lceil>t\<rceil>)"
    if fin: "list_all is_fin (samples_array samples)" and i: "i < length samples" for i
  proof -
    obtain vals where arr: "samples_array samples = map Fin vals"
      using all_fin_map [OF fin] by blast
    have m: "mx = Fin (peak_amplitude vals)"
      using quantize_finite(1) [OF assms arr] mx by simp
    from quantize_sample [OF assms arr i, of ub]
    obtain s16' s t where st: "samples_int16 ub samples = Inr s16'"
      "normalized (Fin (peak_amplitude vals)) (map Fin vals) ! i = Fin s"
      "round32 (s * 32767) = Fin t" "\<bar>t\<bar> \<le> 32767"
      "s16' ! i = word_of_int (trunc t)" "sint (s16' ! i) = trunc t"
      by blast
    have e: "s16' = s16" using st(1) r by (simp add: s16_def nrm_def)
    have n: "nrm ! i = Fin s" using st(2) by (simp add: nrm_def m arr)
    have p: "f32_mul (Fin s) (Fin 32767) = Fin t" using st(3) by simp
    have rg: "- 32767 \<le> t \<and> t \<le> 32767" using st(4) by (simp add: abs_le_iff)
    show ?thesis
      using n p rg st(5) st(6) unfolding e trunc_def by blast
  qed
  have "samples_int16 ub samples = Inr s16" using r by (simp add: s16_def nrm_def)
  then show ?thesis
    using mx ls a b c unfolding nrm_def by blast
qed

theorem quantize_truncates_witness:
  "[Fin (1 / 4), Fin 1] \<noteq> [] \<and> list_all is_fin (samples_array [Fin (1 / 4), Fin 1]) \<and>
   (\<exists>s16. samples_int16 (\<lambda>x. 0) [Fin (1 / 4), Fin 1] = Inr s16 \<and> length s16 = 2 \<and>
          sint (s16 ! 0) = 8191 \<and> sint (s16 ! 1) = 32767) \<and>
   [NaN, Fin 2] \<noteq> [] \<and>
   (\<exists>s16. samples_int16 (\<lambda>x. 7) [NaN, Fin 2] = Inr s16 \<and> length s16 = 2 \<and> s16 ! 1 = 7)"
proof -
  have h: "[Fin (1 / 4), Fin 1] \<noteq> []" "list_all is_fin (samples_array [Fin (1 / 4), Fin 1])"
    by (simp_all add: example_quarter)
  from quantize_truncates [OF h(1), of "\<lambda>x. 0"]
  obtain mx s16 where m: "max_val (samples_array [Fin (1 / 4), Fin 1]) = Inr mx"
    and s: "samples_int16 (\<lambda>x. 0) [Fin (1 / 4), Fin 1] = Inr s16"
    and l: "length s16 = length [Fin (1 / 4), Fin 1]"
    and fin: "list_all is_fin (samples_array [Fin (1 / 4), Fin 1]) \<longrightarrow>
           (\<forall>i<length [Fin (1 / 4), Fin 1]. \<exists>s t.
              normalized mx (samples_array [Fin (1 / 4), Fin 1]) ! i = Fin s \<and>
              f32_mul (Fin s) (Fin 32767) = Fin t \<and> - 32767 \<le> t \<and> t \<le> 32767 \<and>
              s16 ! i = word_of_int (if 0 \<le> t then \<lfloor>t\<rfloor> else \<lceil>t\<rceil>) \<and>
              sint (s16 ! i) = (if 0 \<le> t then \<lfloor>t\<rfloor> else \<lceil>t\<rceil>))"
    by blast
  from fin h(2) have q: "\<forall>i<length [Fin (1 / 4), Fin 1]. \<exists>s t.
              normalized mx (samples_array [Fin (1 / 4), Fin 1]) ! i = Fin s \<and>
              f32_mul (Fin s) (Fin 32767) = Fin t \<and> - 32767 \<le> t \<and> t \<le> 32767 \<and>
              s16 ! i = word_of_int (if 0 \<le> t then \<lfloor>t\<rfloor> else \<lceil>t\<rceil>) \<and>
              sint (s16 ! i) = (if 0 \<le> t then \<lfloor>t\<rfloor> else \<lceil>t\<rceil>)"
    by blast
  have mx: "mx = Fin 1" using m by (simp add: example_quarter)
  have n: "normalized mx (samples_array [Fin (1 / 4), Fin 1]) = [Fin (1 / 4), Fin 1]"
    by (simp add: mx example_quarter)
  have f: "\<lfloor>32767 / 4 :: rat\<rfloor> = 8191"
    by (rule floor_unique) simp_all
  have i0: "0 < length [Fin (1 / 4), Fin 1 :: fp]" and i1: "1 < length [Fin (1 / 4), Fin 1 :: fp]"
    by simp_all
  from q [rule_format, OF i0] obtain s0 t0 where
    st0: "normalized mx (samples_array [Fin (1 / 4), Fin 1]) ! 0 = Fin s0"
      "f32_mul (Fin s0) (Fin 32767) = Fin t0"
      "sint (s16 ! 0) = (if 0 \<le> t0 then \<lfloor>t0\<rfloor> else \<lceil>t0\<rceil>)"
    by blast
  have s0: "s0 = 1 / 4" using st0(1) unfolding n by simp
  have "f32_mul (Fin (1 / 4)) (Fin 32767) = Fin (32767 / 4)"
    by (simp add: round32_values)
  then have t0: "t0 = 32767 / 4" using st0(2) unfolding s0 by simp
  have a: "sint (s16 ! 0) = 8191" using st0(3) unfolding t0 by (simp add: f)
  from q [rule_format, OF i1] obtain s1 t1 where
    st1: "normalized mx (samples_array [Fin (1 / 4), Fin 1]) ! 1 = Fin s1"
      "f32_mul (Fin s1) (Fin 32767) = Fin t1"
      "sint (s16 ! 1) = (if 0 \<le> t1 then \<lfloor>t1\<rfloor> else \<lceil>t1\<rceil>)"
    by blast
  have s1: "s1 = 1" using st1(1) unfolding n by simp
  have "f32_mul (Fin 1) (Fin 32767) = Fin 32767"
    by (simp add: round32_values)
  then have t1: "t1 = 32767" using st1(2) unfolding s1 by simp
  have b: "sint (s16 ! 1) = 32767" using st1(3) unfolding t1 by simp
  have first: "\<exists>s16. samples_int16 (\<lambda>x. 0) [Fin (1 / 4), Fin 1] = Inr s16 \<and> length s16 = 2 \<and>
          sint (s16 ! 0) = 8191 \<and> sint (s16 ! 1) = 32767"
    using s l a b by auto
  have g: "[NaN, Fin 2] \<noteq> []" by simp
  have r2: "round32 2 = Fin 2"
    by (rule round32_exact [of 1 150]) (simp_all add: ulp_def)
  have r65534: "round32 65534 = Fin 65534"
    by (rule round32_exact [of 65534 149]) (simp_all add: ulp_def)
  have arr: "samples_array [NaN, Fin 2] = [NaN, Fin 2]"
    by (simp add: samples_array_def r2)
  from quantize_truncates [OF g, of "\<lambda>x. 7"]
  obtain mx' s16' where m': "max_val (samples_array [NaN, Fin 2]) = Inr mx'"
    and s': "samples_int16 (\<lambda>x. 7) [NaN, Fin 2] = Inr s16'"
    and l': "length s16' = length [NaN, Fin 2]"
    and u: "\<forall>i<length [NaN, Fin 2].
              (\<forall>t. f32_mul (normalized mx' (samples_array [NaN, Fin 2]) ! i) (Fin 32767) = Fin t \<longrightarrow>
                     \<not> (- 32769 < t \<and> t < 32768)) \<longrightarrow>
                s16' ! i = (\<lambda>x. 7) (f32_mul (normalized mx' (samples_array [NaN, Fin 2]) ! i) (Fin 32767))"
    by blast
  have mx': "mx' = NaN" using m' by (simp add: arr max_val_def fp_max2_def)
  have n': "normalized mx' (samples_array [NaN, Fin 2]) = [NaN, Fin 2]"
    by (simp add: mx' arr normalized_def)
  have p: "f32_mul (normalized mx' (samples_array [NaN, Fin 2]) ! 1) (Fin 32767) = Fin 65534"
    unfolding n' by (simp add: r65534)
  have j1: "1 < length [NaN, Fin 2]" by simp
  have "s16' ! 1 = 7"
    using u [rule_format, OF j1] unfolding p by simp
  then have second: "\<exists>s16. samples_int16 (\<lambda>x. 7) [NaN, Fin 2] = Inr s16 \<and> length s16 = 2 \<and> s16 ! 1 = 7"
    using s' l' by auto
  show ?thesis using h first g second by blast
qed




text \<open>
  Claim C6 as stated (a strictly positive peak of the decoded sequence means every
  sample is scaled by \<open>1.0 / peak\<close>) fails.  The single decoded sample \<open>2 ^ -160\<close> has
  a strictly positive peak, and scaled by it the sample is 1, which quantizes to 32767.
  The code takes the peak after \<open>np.array(samples, dtype=np.float32)\<close>, where the sample
  has become \<open>0.0\<close>: the peak it sees is 0, nothing is scaled and the output is 0.
\<close>

theorem peak_normalization_counterexample:
  "0 < peak_amplitude [1 / 2 ^ 160] \<and>
   (1 / 2 ^ 160) / peak_amplitude [1 / 2 ^ 160] = 1 \<and>
   astype_int16 (\<lambda>x. 0) (f32_mul (Fin 1) (Fin 32767)) = 32767 \<and>
   samples_array [Fin (1 / 2 ^ 160)] = [Fin 0] \<and>
   max_val (samples_array [Fin (1 / 2 ^ 160)]) = Inr (Fin 0) \<and>
   normalized (Fin 0) (samples_array [Fin (1 / 2 ^ 160)]) = [Fin 0] \<and>
   samples_int16 (\<lambda>x. 0) [Fin (1 / 2 ^ 160)] = Inr [0] \<and>
   (0 :: 16 word) \<noteq> 32767"
proof -
  have p: "0 < peak_amplitude [1 / 2 ^ 160]" by (simp add: peak_amplitude_def)
  have d: "(1 / 2 ^ 160) / peak_amplitude [1 / 2 ^ 160] = 1" by (simp add: peak_amplitude_def)
  have q: "astype_int16 (\<lambda>x. 0) (f32_mul (Fin 1) (Fin 32767)) = 32767"
    by (simp add: round32_values trunc_def)
  have a: "samples_array [Fin (1 / 2 ^ 160)] = [Fin 0]"
    unfolding samples_array_def
    by (simp only: list.map to_f32.simps round32_underflow)
  have m: "max_val [Fin 0] = Inr (Fin 0)"
    by (simp add: max_val_def)
  have n: "normalized (Fin 0) [Fin 0] = [Fin 0]"
    by (simp add: normalized_def)
  have ne: "[Fin (1 / 2 ^ 160)] \<noteq> []" by simp
  have "samples_int16 (\<lambda>x. 0) [Fin (1 / 2 ^ 160)] =
          Inr (map (\<lambda>x. astype_int16 (\<lambda>x. 0) (f32_mul x (Fin 32767))) [Fin 0])"
    unfolding samples_int16_def a m using ne by (simp add: n)
  then have s: "samples_int16 (\<lambda>x. 0) [Fin (1 / 2 ^ 160)] = Inr [0]"
    by (simp add: round32_zero trunc_def)
  have w: "(0 :: 16 word) \<noteq> 32767" by simp
  show ?thesis
    unfolding a by (intro conjI p d q refl m n s w)
qed

text \<open>
  Claim C6, amended.  The peak is \<open>max_val\<close>, taken over the \<open>float32\<close> array (the decoded
  samples after \<open>np.array(samples, dtype=np.float32)\<close>), for every non-empty decoded
  sequence.  If \<open>max_val\<close> is strictly positive, every \<open>float32\<close> sample is divided by
  it before the multiplication by 32767 and the conversion.  If it is 0, the samples
  are left as they are, they are all zero, and the quantized output is a sequence of
  zeros, one for each sample.  When every element of the \<open>float32\<close> array is finite,
  \<open>max_val\<close> is the greatest absolute value of the array, it is not negative, and the
  division is the quotient rounded to \<open>float32\<close>.
\<close>

theorem peak_normalization:
  assumes "samples \<noteq> []"
  shows "\<exists>mx. max_val (samples_array samples) = Inr mx \<and>
     (fp_less (Fin 0) mx \<longrightarrow>
        normalized mx (samples_array samples) =
          map (\<lambda>x. f32_div x mx) (samples_array samples) \<and>
        samples_int16 ub samples =
          Inr (map (\<lambda>x. astype_int16 ub (f32_mul (f32_div x mx) (Fin 32767)))
                (samples_array samples))) \<and>
     (mx = Fin 0 \<longrightarrow>
        normalized mx (samples_array samples) = samples_array samples \<and>
        samples_array samples = replicate (length samples) (Fin 0) \<and>
        samples_int16 ub samples = Inr (replicate (length samples) 0)) \<and>
     (\<forall>vals. samples_array samples = map Fin vals \<longrightarrow>
        mx = Fin (peak_amplitude vals) \<and> 0 \<le> peak_amplitude vals \<and>
        (0 < peak_amplitude vals \<longrightarrow>
           normalized mx (samples_array samples) =
             map (\<lambda>v. round32 (v / peak_amplitude vals)) vals \<and>
           samples_int16 ub samples =
             Inr (map (\<lambda>v. astype_int16 ub
                              (f32_mul (round32 (v / peak_amplitude vals)) (Fin 32767))) vals)))"
proof -
  from samples_int16_unfold [OF assms, of ub] obtain mx where
    mx: "max_val (samples_array samples) = Inr mx"
    and r: "samples_int16 ub samples =
             Inr (map (\<lambda>x. astype_int16 ub (f32_mul x (Fin 32767)))
                   (normalized mx (samples_array samples)))"
    by blast
  have pos: "normalized mx (samples_array samples) =
          map (\<lambda>x. f32_div x mx) (samples_array samples) \<and>
        samples_int16 ub samples =
          Inr (map (\<lambda>x. astype_int16 ub (f32_mul (f32_div x mx) (Fin 32767)))
                (samples_array samples))"
    if p: "fp_less (Fin 0) mx"
  proof -
    have n: "normalized mx (samples_array samples) =
          map (\<lambda>x. f32_div x mx) (samples_array samples)"
      using p by (simp add: normalized_def)
    show ?thesis unfolding r n by (simp add: comp_def)
  qed
  have fin: "mx = Fin (peak_amplitude vals) \<and> 0 \<le> peak_amplitude vals \<and>
        (0 < peak_amplitude vals \<longrightarrow>
           normalized mx (samples_array samples) =
             map (\<lambda>v. round32 (v / peak_amplitude vals)) vals \<and>
           samples_int16 ub samples =
             Inr (map (\<lambda>v. astype_int16 ub
                              (f32_mul (round32 (v / peak_amplitude vals)) (Fin 32767))) vals))"
    if arr: "samples_array samples = map Fin vals" for vals
  proof -
    note q = quantize_finite [OF assms arr]
    have m: "mx = Fin (peak_amplitude vals)" using q(1) mx by simp
    have "normalized mx (samples_array samples) =
             map (\<lambda>v. round32 (v / peak_amplitude vals)) vals \<and>
           samples_int16 ub samples =
             Inr (map (\<lambda>v. astype_int16 ub
                              (f32_mul (round32 (v / peak_amplitude vals)) (Fin 32767))) vals)"
      if p: "0 < peak_amplitude vals"
    proof -
      have n: "normalized mx (samples_array samples) =
             map (\<lambda>v. round32 (v / peak_amplitude vals)) vals"
        unfolding m arr by (rule q(5) [OF p])
      show ?thesis unfolding r n by (simp add: comp_def)
    qed
    then show ?thesis using m q(2) by blast
  qed
  have zero: "normalized mx (samples_array samples) = samples_array samples \<and>
        samples_array samples = replicate (length samples) (Fin 0) \<and>
        samples_int16 ub samples = Inr (replicate (length samples) 0)"
    if z: "mx = Fin 0"
  proof -
    have "list_all is_fin (samples_array samples)"
      using mx z by (intro max_val_Fin_finite [of _ 0]) simp
    then obtain vals where arr: "samples_array samples = map Fin vals"
      using all_fin_map by blast
    note q = quantize_finite [OF assms arr]
    have pz: "peak_amplitude vals = 0" using q(1) mx z by simp
    have n: "normalized (Fin (peak_amplitude vals)) (map Fin vals) = map Fin vals"
      by (rule q(6) [OF pz, THEN conjunct1])
    have v: "vals = replicate (length samples) 0"
      by (rule q(6) [OF pz, THEN conjunct2])
    have n': "normalized mx (samples_array samples) = samples_array samples"
      using n unfolding arr z pz by simp
    have a: "samples_array samples = replicate (length samples) (Fin 0)"
      unfolding arr using v by (metis map_replicate)
    have e: "map (\<lambda>x. astype_int16 ub (f32_mul x (Fin 32767))) (replicate (length samples) (Fin 0))
            = replicate (length samples) 0"
      by (simp add: round32_zero trunc_def)
    have "samples_int16 ub samples =
            Inr (map (\<lambda>x. astype_int16 ub (f32_mul x (Fin 32767))) (samples_array samples))"
      unfolding r n' by (rule refl)
    also have "\<dots> = Inr (map (\<lambda>x. astype_int16 ub (f32_mul x (Fin 32767)))
                        (replicate (length samples) (Fin 0)))"
      using a by simp
    finally have "samples_int16 ub samples = Inr (replicate (length samples) 0)"
      unfolding e .
    then show ?thesis using n' a by blast
  qed
  show ?thesis using mx pos zero fin by blast
qed

theorem peak_normalization_witness:
  "[Fin (1 / 4), Fin (- (1 / 2))] \<noteq> [] \<and>
   samples_array [Fin (1 / 4), Fin (- (1 / 2))] = map Fin [1 / 4, - (1 / 2)] \<and>
   peak_amplitude [1 / 4, - (1 / 2)] = 1 / 2 \<and>
   max_val (samples_array [Fin (1 / 4), Fin (- (1 / 2))]) = Inr (Fin (1 / 2)) \<and>
   fp_less (Fin 0) (Fin (1 / 2)) \<and>
   normalized (Fin (1 / 2)) (samples_array [Fin (1 / 4), Fin (- (1 / 2))]) = [Fin (1 / 2), Fin (- 1)] \<and>
   samples_int16 (\<lambda>x. 0) [Fin (1 / 4), Fin (- (1 / 2))] = Inr [16383, - 32767] \<and>
   [Fin 0, Fin 0, Fin 0] \<noteq> [] \<and>
   samples_array [Fin 0, Fin 0, Fin 0] = map Fin [0, 0, 0] \<and>
   max_val (samples_array [Fin 0, Fin 0, Fin 0]) = Inr (Fin 0) \<and>
   normalized (Fin 0) (samples_array [Fin 0, Fin 0, Fin 0]) = samples_array [Fin 0, Fin 0, Fin 0] \<and>
   samples_int16 (\<lambda>x. 0) [Fin 0, Fin 0, Fin 0] = Inr [0, 0, 0]"
proof -
  have r: "round32 (- (1 / 2)) = Fin (- (1 / 2))"
    by (rule round32_exact [of "- 1" 148]) (simp_all add: ulp_def)
  have a: "samples_array [Fin (1 / 4), Fin (- (1 / 2))] = map Fin [1 / 4, - (1 / 2)]"
    by (simp add: samples_array_def round32_values r)
  have p: "peak_amplitude [1 / 4, - (1 / 2)] = 1 / 2"
    by (simp add: peak_amplitude_def)
  have "\<lfloor>32767 / 2 :: rat\<rfloor> = 16383"
    by (rule floor_unique) simp_all
  then have t: "trunc (32767 / 2) = 16383" "trunc (- 32767) = - 32767"
    by (simp_all add: trunc_def)
  have b: "samples_array [Fin 0, Fin 0, Fin 0] = map Fin [0, 0, 0]"
    by (simp add: samples_array_def round32_zero)
  have three: "replicate 3 (0 :: 16 word) = [0, 0, 0]"
    by (simp add: numeral_3_eq_3)
  have ne1: "[Fin (1 / 4), Fin (- (1 / 2))] \<noteq> []" and ne2: "[Fin 0, Fin 0, Fin 0] \<noteq> []"
    by simp_all
  from peak_normalization [OF ne1, of "\<lambda>x. 0"] obtain mx where
    mx: "max_val (samples_array [Fin (1 / 4), Fin (- (1 / 2))]) = Inr mx"
    and f: "\<forall>vals. samples_array [Fin (1 / 4), Fin (- (1 / 2))] = map Fin vals \<longrightarrow>
        mx = Fin (peak_amplitude vals) \<and> 0 \<le> peak_amplitude vals \<and>
        (0 < peak_amplitude vals \<longrightarrow>
           normalized mx (samples_array [Fin (1 / 4), Fin (- (1 / 2))]) =
             map (\<lambda>v. round32 (v / peak_amplitude vals)) vals \<and>
           samples_int16 (\<lambda>x. 0) [Fin (1 / 4), Fin (- (1 / 2))] =
             Inr (map (\<lambda>v. astype_int16 (\<lambda>x. 0)
                              (f32_mul (round32 (v / peak_amplitude vals)) (Fin 32767))) vals))"
    by blast
  have half: "0 < (1 / 2 :: rat)" by simp
  note g = f [rule_format, OF a, unfolded p]
  have m1: "mx = Fin (1 / 2)" using g by blast
  have n1: "normalized mx (samples_array [Fin (1 / 4), Fin (- (1 / 2))]) =
             map (\<lambda>v. round32 (v / (1 / 2))) [1 / 4, - (1 / 2)]"
    using g half by blast
  have s1: "samples_int16 (\<lambda>x. 0) [Fin (1 / 4), Fin (- (1 / 2))] =
             Inr (map (\<lambda>v. astype_int16 (\<lambda>x. 0)
                              (f32_mul (round32 (v / (1 / 2))) (Fin 32767))) [1 / 4, - (1 / 2)])"
    using g half by blast
  have c1: "max_val (samples_array [Fin (1 / 4), Fin (- (1 / 2))]) = Inr (Fin (1 / 2))"
    using mx m1 by simp
  have c2: "normalized (Fin (1 / 2)) (samples_array [Fin (1 / 4), Fin (- (1 / 2))]) =
              [Fin (1 / 2), Fin (- 1)]"
    using n1 unfolding m1 by (simp add: round32_values)
  have c3: "samples_int16 (\<lambda>x. 0) [Fin (1 / 4), Fin (- (1 / 2))] = Inr [16383, - 32767]"
    using s1 by (simp add: round32_values t)
  from peak_normalization [OF ne2, of "\<lambda>x. 0"] obtain mz where
    mz: "max_val (samples_array [Fin 0, Fin 0, Fin 0]) = Inr mz"
    and z: "mz = Fin 0 \<longrightarrow>
        normalized mz (samples_array [Fin 0, Fin 0, Fin 0]) = samples_array [Fin 0, Fin 0, Fin 0] \<and>
        samples_array [Fin 0, Fin 0, Fin 0] = replicate (length [Fin 0, Fin 0, Fin 0]) (Fin 0) \<and>
        samples_int16 (\<lambda>x. 0) [Fin 0, Fin 0, Fin 0] = Inr (replicate (length [Fin 0, Fin 0, Fin 0]) 0)"
    by blast
  have mz0: "mz = Fin 0" using mz by (simp add: b max_val_def fp_max2_def)
  have d1: "max_val (samples_array [Fin 0, Fin 0, Fin 0]) = Inr (Fin 0)"
    using mz mz0 by simp
  note zz = z [rule_format, OF mz0, unfolded mz0]
  have d2: "normalized (Fin 0) (samples_array [Fin 0, Fin 0, Fin 0]) = samples_array [Fin 0, Fin 0, Fin 0]"
    using zz by blast
  have "samples_int16 (\<lambda>x. 0) [Fin 0, Fin 0, Fin 0] = Inr (replicate (length [Fin 0, Fin 0, Fin 0 :: fp]) 0)"
    using zz by blast
  then have d3: "samples_int16 (\<lambda>x. 0) [Fin 0, Fin 0, Fin 0] = Inr [0, 0, 0]"
    by (simp add: three)
  have l: "fp_less (Fin 0) (Fin (1 / 2))" by simp
  show ?thesis
    by (intro conjI ne1 a p c1 l c2 c3 ne2 b d1 d2 d3)
qed

end
